theory Spec2Isabelle
  imports Main
begin

section \<open>JavaScript values and the built-ins that script.js calls\<close>

text \<open>
  The module \<^verbatim>\<open>script.js\<close> is dynamically typed: the store \<^verbatim>\<open>sistersData\<close> holds
  whatever \<^verbatim>\<open>response.json()\<close> produced, and the candidate given to
  \<^verbatim>\<open>validateSisterData\<close> is whatever the caller built. Values are therefore modelled
  as the data a JSON document or an object literal can hold. A string is a list of
  characters, each standing for one code unit below 256; a number only matters through
  its truthiness and through \<^verbatim>\<open>=== 0\<close>, so the integers stand for the numbers. An
  object is the list of its own properties (a key is looked up at its first binding).
\<close>

datatype js_value =
    JUndefined
  | JNull
  | JBool bool
  | JNum int
  | JStr string
  | JArr "js_value list"
  | JObj "(string \<times> js_value) list"

text \<open>What a \<^verbatim>\<open>throw\<close> carries: the built-ins raise \<^verbatim>\<open>TypeError\<close> and
  \<^verbatim>\<open>SyntaxError\<close>, the loader raises \<^verbatim>\<open>new Error(message)\<close>.\<close>

datatype js_error = TypeError | SyntaxError | Error string

text \<open>Sequencing inside a \<^verbatim>\<open>try\<close> block: the first exception ends the block.\<close>

definition on_value :: "js_error + 'a \<Rightarrow> ('a \<Rightarrow> js_error + 'b) \<Rightarrow> js_error + 'b" where
  "on_value r f = (case r of Inl e \<Rightarrow> Inl e | Inr v \<Rightarrow> f v)"

text \<open>ToBoolean, as \<^verbatim>\<open>!x\<close>, \<^verbatim>\<open>x && y\<close> and \<^verbatim>\<open>x || y\<close> read a value.\<close>

fun truthy :: "js_value \<Rightarrow> bool" where
  "truthy JUndefined = False"
| "truthy JNull = False"
| "truthy (JBool b) = b"
| "truthy (JNum n) = (n \<noteq> 0)"
| "truthy (JStr s) = (s \<noteq> [])"
| "truthy (JArr xs) = True"
| "truthy (JObj kvs) = True"

text \<open>
  Property read \<^verbatim>\<open>v.k\<close>, for the keys the module reads (\<^verbatim>\<open>length\<close>, \<^verbatim>\<open>name\<close>,
  \<^verbatim>\<open>greeting\<close>, \<^verbatim>\<open>message\<close>, \<^verbatim>\<open>images\<close>): reading a property of \<^verbatim>\<open>undefined\<close>
  or \<^verbatim>\<open>null\<close> throws, a missing property reads as \<^verbatim>\<open>undefined\<close>.
\<close>

fun getProp :: "js_value \<Rightarrow> string \<Rightarrow> js_error + js_value" where
  "getProp JUndefined k = Inl TypeError"
| "getProp JNull k = Inl TypeError"
| "getProp (JObj kvs) k = Inr (case map_of kvs k of Some v \<Rightarrow> v | None \<Rightarrow> JUndefined)"
| "getProp (JArr xs) k = Inr (if k = ''length'' then JNum (int (length xs)) else JUndefined)"
| "getProp (JStr s) k = Inr (if k = ''length'' then JNum (int (length s)) else JUndefined)"
| "getProp (JBool b) k = Inr JUndefined"
| "getProp (JNum n) k = Inr JUndefined"

text \<open>White space as \<^verbatim>\<open>String.prototype.trim\<close> strips it, among the code units below
  256: tab, line feed, vertical tab, form feed, carriage return, space, no-break space.\<close>

definition is_space :: "char \<Rightarrow> bool" where
  "is_space c = (of_char c \<in> {9, 10, 11, 12, 13, 32, 160 :: nat})"

definition trim :: "string \<Rightarrow> string" where
  "trim s = rev (dropWhile is_space (rev (dropWhile is_space s)))"

text \<open>Lower-casing of one code unit below 256: A to Z, and the accented capitals
  0xC0 to 0xDE but for the multiplication sign 0xD7, move up by 32.\<close>

definition lower_char :: "char \<Rightarrow> char" where
  "lower_char c = (let n = of_char c :: nat in
     if (65 \<le> n \<and> n \<le> 90) \<or> (192 \<le> n \<and> n \<le> 222 \<and> n \<noteq> 215)
     then char_of (n + 32) else c)"

definition toLowerCase :: "string \<Rightarrow> string" where
  "toLowerCase s = map lower_char s"

text \<open>The method calls \<^verbatim>\<open>v.toLowerCase()\<close> and \<^verbatim>\<open>v.trim()\<close>: only a string has
  these methods; on \<^verbatim>\<open>undefined\<close> and \<^verbatim>\<open>null\<close> the property read throws, on every
  other value the property is not a function, and the call throws a \<^verbatim>\<open>TypeError\<close>.\<close>

fun js_toLowerCase :: "js_value \<Rightarrow> js_error + js_value" where
  "js_toLowerCase (JStr s) = Inr (JStr (toLowerCase s))"
| "js_toLowerCase v = Inl TypeError"

fun js_trim :: "js_value \<Rightarrow> js_error + js_value" where
  "js_trim (JStr s) = Inr (JStr (trim s))"
| "js_trim v = Inl TypeError"

text \<open>A number in a template literal: its decimal digits.\<close>

fun num_to_string :: "nat \<Rightarrow> string" where
  "num_to_string n =
     (if n < 10 then [char_of (48 + n)]
      else num_to_string (n div 10) @ [char_of (48 + n mod 10)])"

declare num_to_string.simps [simp del]

text \<open>\<^verbatim>\<open>Array.prototype.some\<close> and \<^verbatim>\<open>Array.prototype.find\<close>: the elements in order,
  stopping at the first one the callback accepts; an exception of the callback ends
  the scan. Only an array has these methods.\<close>

fun some_elements :: "(js_value \<Rightarrow> js_error + bool) \<Rightarrow> js_value list \<Rightarrow> js_error + bool" where
  "some_elements f [] = Inr False"
| "some_elements f (x # xs) =
     (case f x of Inl e \<Rightarrow> Inl e | Inr b \<Rightarrow> if b then Inr True else some_elements f xs)"

fun find_elements :: "(js_value \<Rightarrow> js_error + bool) \<Rightarrow> js_value list \<Rightarrow> js_error + js_value" where
  "find_elements f [] = Inr JUndefined"
| "find_elements f (x # xs) =
     (case f x of Inl e \<Rightarrow> Inl e | Inr b \<Rightarrow> if b then Inr x else find_elements f xs)"

fun js_some :: "js_value \<Rightarrow> (js_value \<Rightarrow> js_error + bool) \<Rightarrow> js_error + bool" where
  "js_some (JArr xs) f = some_elements f xs"
| "js_some v f = Inl TypeError"

fun js_find :: "js_value \<Rightarrow> (js_value \<Rightarrow> js_error + bool) \<Rightarrow> js_error + js_value" where
  "js_find (JArr xs) f = find_elements f xs"
| "js_find v f = Inl TypeError"

section \<open>The page: the store and the data source\<close>

text \<open>
  \<^verbatim>\<open>fetch('data.json')\<close> either rejects (a network error) or resolves to a response
  with its \<^verbatim>\<open>ok\<close> flag and \<^verbatim>\<open>status\<close>; \<^verbatim>\<open>response.json()\<close> either rejects (the
  body is not JSON) or resolves to the parsed value. The data source is outside the
  module, so it is a parameter: the outcome of the n-th fetch of the page.
\<close>

record response =
  ok :: bool
  status :: nat
  json :: "js_error + js_value"

datatype fetch_outcome = Rejected js_error | Resolved response

type_synonym data_source = "nat \<Rightarrow> fetch_outcome"

text \<open>
  The state of the page that the module touches: the global \<^verbatim>\<open>sistersData\<close>, how many
  times \<^verbatim>\<open>fetch\<close> has been called, and what was written with \<^verbatim>\<open>console.error\<close>.
  Each \<^verbatim>\<open>async\<close> function is modelled as run to completion by a caller that awaits
  it before it calls the next one.
\<close>

record page =
  sistersData :: js_value
  fetches :: nat
  console :: "(string \<times> js_error) list"

definition initial_page :: page where
  "initial_page = \<lparr>sistersData = JArr [], fetches = 0, console = []\<rparr>"

text \<open>The \<^verbatim>\<open>try\<close> block of \<^verbatim>\<open>loadSistersData\<close> (script.js, lines 15 to 20).\<close>

definition loadSistersData_try :: "data_source \<Rightarrow> page \<Rightarrow> (js_error + js_value) \<times> page" where
  "loadSistersData_try src s =
     (let s1 = s\<lparr>fetches := Suc (fetches s)\<rparr> in
      case src (fetches s) of
        Rejected e \<Rightarrow> (Inl e, s1)
      | Resolved response \<Rightarrow>
          if \<not> ok response
          then (Inl (Error (''HTTP error! status: '' @ num_to_string (status response))), s1)
          else (case json response of
                  Inl e \<Rightarrow> (Inl e, s1)
                | Inr v \<Rightarrow> (Inr v, s1\<lparr>sistersData := v\<rparr>)))"

text \<open>\<^verbatim>\<open>loadSistersData\<close> (lines 13 to 27): the \<^verbatim>\<open>catch\<close> logs, empties the store
  and returns it.\<close>

definition loadSistersData :: "data_source \<Rightarrow> page \<Rightarrow> js_value \<times> page" where
  "loadSistersData src s =
     (case loadSistersData_try src s of
        (Inr v, s1) \<Rightarrow> (v, s1)
      | (Inl e, s1) \<Rightarrow>
          (JArr [], s1\<lparr>sistersData := JArr [],
                        console := console s1 @ [(''Error loading sisters data:'', e)]\<rparr>))"

text \<open>The callback of both lookups:
  \<^verbatim>\<open>sister => sister.name.toLowerCase().trim() === normalizedSearchName\<close>.\<close>

definition name_is :: "js_value \<Rightarrow> js_value \<Rightarrow> js_error + bool" where
  "name_is normalizedSearchName sister =
     on_value (getProp sister ''name'') (\<lambda>n.
     on_value (js_toLowerCase n) (\<lambda>l.
     on_value (js_trim l) (\<lambda>t. Inr (t = normalizedSearchName))))"

text \<open>The \<^verbatim>\<open>try\<close> block of \<^verbatim>\<open>checkSisterExists\<close> (lines 36 to 43).\<close>

definition checkSisterExists_try :: "data_source \<Rightarrow> js_value \<Rightarrow> page \<Rightarrow> (js_error + bool) \<times> page" where
  "checkSisterExists_try src name s =
     (case getProp (sistersData s) ''length'' of
        Inl e \<Rightarrow> (Inl e, s)
      | Inr len \<Rightarrow>
          (let s1 = (if len = JNum 0 then snd (loadSistersData src s) else s) in
           (on_value (js_toLowerCase name) (\<lambda>l.
            on_value (js_trim l) (\<lambda>normalizedSearchName.
            js_some (sistersData s1) (name_is normalizedSearchName))), s1)))"

text \<open>\<^verbatim>\<open>checkSisterExists\<close> (lines 34 to 48): the \<^verbatim>\<open>catch\<close> logs and answers
  \<^verbatim>\<open>false\<close>.\<close>

definition checkSisterExists :: "data_source \<Rightarrow> js_value \<Rightarrow> page \<Rightarrow> bool \<times> page" where
  "checkSisterExists src name s =
     (case checkSisterExists_try src name s of
        (Inr b, s1) \<Rightarrow> (b, s1)
      | (Inl e, s1) \<Rightarrow>
          (False, s1\<lparr>console := console s1 @ [(''Error checking sister existence:'', e)]\<rparr>))"

text \<open>The \<^verbatim>\<open>try\<close> block of \<^verbatim>\<open>getSisterData\<close> (lines 57 to 66); the last line is
  \<^verbatim>\<open>return sister || null\<close>.\<close>

definition getSisterData_try :: "data_source \<Rightarrow> js_value \<Rightarrow> page \<Rightarrow> (js_error + js_value) \<times> page" where
  "getSisterData_try src name s =
     (case getProp (sistersData s) ''length'' of
        Inl e \<Rightarrow> (Inl e, s)
      | Inr len \<Rightarrow>
          (let s1 = (if len = JNum 0 then snd (loadSistersData src s) else s) in
           (on_value (js_toLowerCase name) (\<lambda>l.
            on_value (js_trim l) (\<lambda>normalizedSearchName.
            on_value (js_find (sistersData s1) (name_is normalizedSearchName)) (\<lambda>sister.
            Inr (if truthy sister then sister else JNull)))), s1)))"

text \<open>\<^verbatim>\<open>getSisterData\<close> (lines 55 to 71): the \<^verbatim>\<open>catch\<close> logs and answers
  \<^verbatim>\<open>null\<close>.\<close>

definition getSisterData :: "data_source \<Rightarrow> js_value \<Rightarrow> page \<Rightarrow> js_value \<times> page" where
  "getSisterData src name s =
     (case getSisterData_try src name s of
        (Inr v, s1) \<Rightarrow> (v, s1)
      | (Inl e, s1) \<Rightarrow>
          (JNull, s1\<lparr>console := console s1 @ [(''Error getting sister data:'', e)]\<rparr>))"

text \<open>A session of the page: lookups made one after the other, each awaited before
  the next.\<close>

datatype lookup = Exists js_value | Find js_value

fun run_lookup :: "data_source \<Rightarrow> lookup \<Rightarrow> page \<Rightarrow> page" where
  "run_lookup src (Exists name) s = snd (checkSisterExists src name s)"
| "run_lookup src (Find name) s = snd (getSisterData src name s)"

fun run_lookups :: "data_source \<Rightarrow> lookup list \<Rightarrow> page \<Rightarrow> page" where
  "run_lookups src [] s = s"
| "run_lookups src (c # cs) s = run_lookups src cs (run_lookup src c s)"

section \<open>The validator\<close>

text \<open>The object that \<^verbatim>\<open>validateSisterData\<close> returns.\<close>

record validation =
  isValid :: bool
  errors :: "string list"

text \<open>
  \<^verbatim>\<open>new URL(url)\<close>: the URL parser belongs to the platform, so which strings parse is
  the parameter \<open>url_parses\<close>; the constructor throws a \<^verbatim>\<open>TypeError\<close> on a string that
  does not parse. The validator only reaches it with a string.
\<close>

fun new_URL :: "(string \<Rightarrow> bool) \<Rightarrow> js_value \<Rightarrow> js_error + unit" where
  "new_URL url_parses (JStr u) = (if url_parses u then Inr () else Inl TypeError)"
| "new_URL url_parses v = Inl TypeError"

fun isArray :: "js_value \<Rightarrow> bool" where
  "isArray (JArr xs) = True"
| "isArray v = False"

text \<open>\<^verbatim>\<open>Array.prototype.forEach\<close> with a callback \<open>(element, index)\<close> that acts on the
  local state of the caller (here the \<^verbatim>\<open>errors\<close> array); an exception of the callback
  ends the loop and leaves the caller.\<close>

fun forEach_from :: "(js_value \<Rightarrow> nat \<Rightarrow> 'st \<Rightarrow> js_error + 'st) \<Rightarrow> js_value list \<Rightarrow> nat \<Rightarrow> 'st \<Rightarrow> js_error + 'st" where
  "forEach_from f [] index st = Inr st"
| "forEach_from f (x # xs) index st =
     (case f x index st of Inl e \<Rightarrow> Inl e | Inr st' \<Rightarrow> forEach_from f xs (Suc index) st')"

fun js_forEach :: "js_value \<Rightarrow> (js_value \<Rightarrow> nat \<Rightarrow> 'st \<Rightarrow> js_error + 'st) \<Rightarrow> 'st \<Rightarrow> js_error + 'st" where
  "js_forEach (JArr xs) f st = forEach_from f xs 0 st"
| "js_forEach v f st = Inl TypeError"

text \<open>The three required-field checks of lines 81 to 91 have one shape,
  \<^verbatim>\<open>if (!sisterData.F || sisterData.F.trim() === '') errors.push(M)\<close>
  (the property is read twice, with the same result both times).\<close>

definition require_field :: "js_value \<Rightarrow> string \<Rightarrow> string \<Rightarrow> string list \<Rightarrow> js_error + string list" where
  "require_field sisterData field message errs =
     on_value (getProp sisterData field) (\<lambda>v.
       if \<not> truthy v then Inr (errs @ [message])
       else on_value (js_trim v) (\<lambda>t.
         Inr (if t = JStr [] then errs @ [message] else errs)))"

text \<open>The callback of lines 95 to 103: a truthy entry is trimmed, and one that is not
  blank goes to \<^verbatim>\<open>new URL\<close>, whose exception is caught and becomes an error message.\<close>

definition check_image :: "(string \<Rightarrow> bool) \<Rightarrow> js_value \<Rightarrow> nat \<Rightarrow> string list \<Rightarrow> js_error + string list" where
  "check_image url_parses url index errs =
     (if truthy url
      then on_value (js_trim url) (\<lambda>t.
        if t \<noteq> JStr []
        then (case new_URL url_parses url of
                Inr u \<Rightarrow> Inr errs
              | Inl e \<Rightarrow>
                  Inr (errs @ [''Image URL '' @ num_to_string (index + 1) @ '' is not valid'']))
        else Inr errs)
      else Inr errs)"

text \<open>\<^verbatim>\<open>validateSisterData\<close> (lines 78 to 110). It has no \<^verbatim>\<open>try\<close> of its own around
  the checks: an exception of a property read or of \<^verbatim>\<open>trim\<close> leaves the function.\<close>

definition validateSisterData :: "(string \<Rightarrow> bool) \<Rightarrow> js_value \<Rightarrow> js_error + validation" where
  "validateSisterData url_parses sisterData =
     on_value (require_field sisterData ''name'' ''Name is required'' []) (\<lambda>errors1.
     on_value (require_field sisterData ''greeting'' ''Greeting is required'' errors1) (\<lambda>errors2.
     on_value (require_field sisterData ''message'' ''Message is required'' errors2) (\<lambda>errors3.
     on_value (getProp sisterData ''images'') (\<lambda>images.
     on_value (if truthy images \<and> isArray images
               then js_forEach images (check_image url_parses) errors3
               else Inr errors3) (\<lambda>errors4.
     Inr \<lparr>isValid = (length errors4 = 0), errors = errors4\<rparr>)))))"

section \<open>The validator on a heap\<close>

text \<open>
  Whether \<^verbatim>\<open>validateSisterData\<close> changes its argument, and whether what it returns is
  new, are questions about objects with identity. Here a value is a primitive or a
  reference to an object of the heap; the heap is the list of the objects allocated so
  far, an object's address is its position, and a new object goes at the end. A
  statement takes the heap and returns its result, or the exception it threw, with the
  heap it leaves.
\<close>

type_synonym addr = nat

datatype ref_value = RUndefined | RNull | RBool bool | RNum int | RStr string | RRef addr

datatype heap_object = HObj "(string \<times> ref_value) list" | HArr "ref_value list"

type_synonym heap = "heap_object list"

type_synonym 'a stmt = "heap \<Rightarrow> (js_error + 'a) \<times> heap"

definition bind_h :: "'a stmt \<Rightarrow> ('a \<Rightarrow> 'b stmt) \<Rightarrow> 'b stmt" where
  "bind_h m f h = (case m h of (Inl e, h') \<Rightarrow> (Inl e, h') | (Inr v, h') \<Rightarrow> f v h')"

definition lift :: "js_error + 'a \<Rightarrow> 'a stmt" where
  "lift r h = (r, h)"

text \<open>An object or array literal: \<^verbatim>\<open>[]\<close>, \<^verbatim>\<open>{ isValid: ..., errors: ... }\<close>.\<close>

definition alloc :: "heap_object \<Rightarrow> addr stmt" where
  "alloc obj h = (Inr (length h), h @ [obj])"

fun r_truthy :: "ref_value \<Rightarrow> bool" where
  "r_truthy RUndefined = False"
| "r_truthy RNull = False"
| "r_truthy (RBool b) = b"
| "r_truthy (RNum n) = (n \<noteq> 0)"
| "r_truthy (RStr s) = (s \<noteq> [])"
| "r_truthy (RRef a) = True"

text \<open>A reference to no object of the heap does not occur in a running program; it reads
  as an object without properties.\<close>

fun h_getProp :: "heap \<Rightarrow> ref_value \<Rightarrow> string \<Rightarrow> js_error + ref_value" where
  "h_getProp h RUndefined k = Inl TypeError"
| "h_getProp h RNull k = Inl TypeError"
| "h_getProp h (RRef a) k =
     (if a < length h
      then (case h ! a of
              HObj kvs \<Rightarrow> Inr (case map_of kvs k of Some v \<Rightarrow> v | None \<Rightarrow> RUndefined)
            | HArr xs \<Rightarrow> Inr (if k = ''length'' then RNum (int (length xs)) else RUndefined))
      else Inr RUndefined)"
| "h_getProp h (RStr s) k = Inr (if k = ''length'' then RNum (int (length s)) else RUndefined)"
| "h_getProp h (RBool b) k = Inr RUndefined"
| "h_getProp h (RNum n) k = Inr RUndefined"

definition get_h :: "ref_value \<Rightarrow> string \<Rightarrow> ref_value stmt" where
  "get_h v k h = (h_getProp h v k, h)"

fun r_trim :: "ref_value \<Rightarrow> js_error + ref_value" where
  "r_trim (RStr s) = Inr (RStr (trim s))"
| "r_trim v = Inl TypeError"

fun r_new_URL :: "(string \<Rightarrow> bool) \<Rightarrow> ref_value \<Rightarrow> js_error + unit" where
  "r_new_URL url_parses (RStr u) = (if url_parses u then Inr () else Inl TypeError)"
| "r_new_URL url_parses v = Inl TypeError"

text \<open>The elements of the array at an address, if an array is there.\<close>

definition elements :: "heap \<Rightarrow> addr \<Rightarrow> ref_value list option" where
  "elements h a =
     (if a < length h then (case h ! a of HArr xs \<Rightarrow> Some xs | HObj kvs \<Rightarrow> None) else None)"

fun h_isArray :: "heap \<Rightarrow> ref_value \<Rightarrow> bool" where
  "h_isArray h (RRef a) = (elements h a \<noteq> None)"
| "h_isArray h v = False"

text \<open>\<^verbatim>\<open>errors.push(v)\<close>: the one write of the function, into the array at the
  given address.\<close>

definition push :: "addr \<Rightarrow> ref_value \<Rightarrow> unit stmt" where
  "push a v h = (Inr (), case elements h a of Some xs \<Rightarrow> h[a := HArr (xs @ [v])] | None \<Rightarrow> h)"

text \<open>\<^verbatim>\<open>forEach\<close> reads the length once and then each element from the heap as it is
  when its turn comes; an index the array no longer has reads as \<^verbatim>\<open>undefined\<close>, which
  the callback below skips.\<close>

function forEach_h :: "(ref_value \<Rightarrow> nat \<Rightarrow> unit stmt) \<Rightarrow> addr \<Rightarrow> nat \<Rightarrow> nat \<Rightarrow> unit stmt" where
  "forEach_h f arr index len h =
     (if index < len
      then (case f (case elements h arr of
                      Some xs \<Rightarrow> if index < length xs then xs ! index else RUndefined
                    | None \<Rightarrow> RUndefined) index h of
              (Inl e, h') \<Rightarrow> (Inl e, h')
            | (Inr u, h') \<Rightarrow> forEach_h f arr (Suc index) len h')
      else (Inr (), h))"
  by pat_completeness auto
termination
  by (relation "measure (\<lambda>(f, arr, index, len, h). len - index)") auto

declare forEach_h.simps [simp del]

fun h_forEach :: "ref_value \<Rightarrow> (ref_value \<Rightarrow> nat \<Rightarrow> unit stmt) \<Rightarrow> unit stmt" where
  "h_forEach (RRef a) f h =
     (case elements h a of
        Some xs \<Rightarrow> forEach_h f a 0 (length xs) h
      | None \<Rightarrow> (Inl TypeError, h))"
| "h_forEach v f h = (Inl TypeError, h)"

definition require_field_h :: "addr \<Rightarrow> ref_value \<Rightarrow> string \<Rightarrow> string \<Rightarrow> unit stmt" where
  "require_field_h errs sisterData field message =
     bind_h (get_h sisterData field) (\<lambda>v.
       if \<not> r_truthy v then push errs (RStr message)
       else bind_h (lift (r_trim v)) (\<lambda>t.
         if t = RStr [] then push errs (RStr message) else lift (Inr ())))"

definition check_image_h :: "(string \<Rightarrow> bool) \<Rightarrow> addr \<Rightarrow> ref_value \<Rightarrow> nat \<Rightarrow> unit stmt" where
  "check_image_h url_parses errs url index =
     (if r_truthy url
      then bind_h (lift (r_trim url)) (\<lambda>t.
        if t \<noteq> RStr []
        then (case r_new_URL url_parses url of
                Inr u \<Rightarrow> lift (Inr ())
              | Inl e \<Rightarrow>
                  push errs
                    (RStr (''Image URL '' @ num_to_string (index + 1) @ '' is not valid'')))
        else lift (Inr ()))
      else lift (Inr ()))"

text \<open>\<^verbatim>\<open>validateSisterData\<close> (lines 78 to 110) with its allocations: the array
  \<^verbatim>\<open>errors\<close> of line 79 and the object of lines 106 to 109.\<close>

definition validateSisterData_h :: "(string \<Rightarrow> bool) \<Rightarrow> ref_value \<Rightarrow> ref_value stmt" where
  "validateSisterData_h url_parses sisterData =
     bind_h (alloc (HArr [])) (\<lambda>errs.
     bind_h (require_field_h errs sisterData ''name'' ''Name is required'') (\<lambda>u.
     bind_h (require_field_h errs sisterData ''greeting'' ''Greeting is required'') (\<lambda>u.
     bind_h (require_field_h errs sisterData ''message'' ''Message is required'') (\<lambda>u.
     bind_h (get_h sisterData ''images'') (\<lambda>images.
     bind_h (\<lambda>h. if r_truthy images \<and> h_isArray h images
                  then h_forEach images (check_image_h url_parses errs) h
                  else (Inr (), h)) (\<lambda>u.
     bind_h (get_h (RRef errs) ''length'') (\<lambda>len.
     bind_h (alloc (HObj [(''isValid'', RBool (len = RNum 0)), (''errors'', RRef errs)])) (\<lambda>result.
     lift (Inr (RRef result))))))))))"

text \<open>The invariant of the checks: the heap is the heap of the call followed by the
  array \<^verbatim>\<open>errors\<close>, which holds strings. A statement maintains an invariant when
  the heap it leaves satisfies it whenever the heap it was given does.\<close>

definition grown :: "heap \<Rightarrow> heap \<Rightarrow> bool" where
  "grown h0 h = (\<exists>errs. h = h0 @ [HArr (map RStr errs)])"

definition maintains :: "(heap \<Rightarrow> bool) \<Rightarrow> 'a stmt \<Rightarrow> bool" where
  "maintains I m = (\<forall>h. I h \<longrightarrow> I (snd (m h)))"

text \<open>
  The value that a reference stands for, with the objects it reaches unfolded to a given
  depth (the validator reads the candidate, its properties and the entries of
  \<^verbatim>\<open>images\<close>: depth 2); an object beyond that depth is an object without
  properties. A candidate is well placed in a heap when it and the references among
  its properties point into the heap.
\<close>

fun denote :: "nat \<Rightarrow> heap \<Rightarrow> ref_value \<Rightarrow> js_value" where
  "denote d h RUndefined = JUndefined"
| "denote d h RNull = JNull"
| "denote d h (RBool b) = JBool b"
| "denote d h (RNum n) = JNum n"
| "denote d h (RStr s) = JStr s"
| "denote 0 h (RRef a) = JObj []"
| "denote (Suc d) h (RRef a) =
     (if a < length h
      then (case h ! a of
              HObj kvs \<Rightarrow> JObj (map (\<lambda>(k, v). (k, denote d h v)) kvs)
            | HArr xs \<Rightarrow> JArr (map (denote d h) xs))
      else JObj [])"

fun in_heap :: "heap \<Rightarrow> ref_value \<Rightarrow> bool" where
  "in_heap h (RRef a) = (a < length h)"
| "in_heap h v = True"

fun candidate_ok :: "heap \<Rightarrow> ref_value \<Rightarrow> bool" where
  "candidate_ok h (RRef a) =
     (a < length h \<and>
      (case h ! a of HObj kvs \<Rightarrow> list_all (\<lambda>(k, v). in_heap h v) kvs | HArr xs \<Rightarrow> True))"
| "candidate_ok h v = True"

text \<open>The heap of the call followed by the array \<^verbatim>\<open>errors\<close> with the given
  messages.\<close>

definition with_errors :: "heap \<Rightarrow> string list \<Rightarrow> heap" where
  "with_errors h errs = h @ [HArr (map RStr errs)]"

section \<open>The vocabulary of the specification\<close>

text \<open>The property of an object literal, \<^verbatim>\<open>undefined\<close> when it is missing.\<close>

definition field :: "(string \<times> js_value) list \<Rightarrow> string \<Rightarrow> js_value" where
  "field kvs k = (case map_of kvs k of Some v \<Rightarrow> v | None \<Rightarrow> JUndefined)"

text \<open>The normalized name of the specification: lower-cased, then trimmed.\<close>

definition normalize :: "string \<Rightarrow> string" where
  "normalize s = trim (toLowerCase s)"

text \<open>A Record, as far as a lookup is concerned: an object whose \<^verbatim>\<open>name\<close> is a
  string. A Record matches a name when their normalized names are equal.\<close>

fun named :: "js_value \<Rightarrow> bool" where
  "named (JObj kvs) = (case field kvs ''name'' of JStr n \<Rightarrow> True | _ \<Rightarrow> False)"
| "named v = False"

fun matches :: "string \<Rightarrow> js_value \<Rightarrow> bool" where
  "matches name (JObj kvs) =
     (case field kvs ''name'' of JStr n \<Rightarrow> normalize n = normalize name | _ \<Rightarrow> False)"
| "matches name v = False"

definition record_seq :: "js_value \<Rightarrow> bool" where
  "record_seq v = (case v of JArr rs \<Rightarrow> list_all named rs | _ \<Rightarrow> False)"

text \<open>What a scan of any store gives for a name. An element decides the scan when it
  matches the name or is not a Record; the scan gives the first deciding element when
  that is a Record, and \<^verbatim>\<open>null\<close> when it is not one, when no element decides, and
  when the store is not an array.\<close>

definition decisive :: "string \<Rightarrow> js_value \<Rightarrow> bool" where
  "decisive name r = (if named r then matches name r else True)"

definition scan :: "string \<Rightarrow> js_value \<Rightarrow> js_value" where
  "scan name store =
     (case store of
        JArr rs \<Rightarrow>
          (case find (decisive name) rs of
             Some r \<Rightarrow> if named r then r else JNull
           | None \<Rightarrow> JNull)
      | _ \<Rightarrow> JNull)"

text \<open>The failures of the loader: a network error, a status that is not a success, a
  body that is not JSON.\<close>

definition fetch_fails :: "fetch_outcome \<Rightarrow> bool" where
  "fetch_fails outcome =
     (case outcome of
        Rejected e \<Rightarrow> True
      | Resolved resp \<Rightarrow> (if ok resp then isl (json resp) else True))"

text \<open>What the data model allows in a text field or an image entry: a string, or a
  value that reads as absent (\<^verbatim>\<open>undefined\<close>, \<^verbatim>\<open>null\<close>, \<^verbatim>\<open>false\<close>, \<^verbatim>\<open>0\<close>).\<close>

fun text_or_falsy :: "js_value \<Rightarrow> bool" where
  "text_or_falsy (JStr s) = True"
| "text_or_falsy v = (\<not> truthy v)"

definition images_checkable :: "js_value \<Rightarrow> bool" where
  "images_checkable v = (case v of JArr es \<Rightarrow> list_all text_or_falsy es | _ \<Rightarrow> True)"

text \<open>Blank: absent, or a string that is empty after trimming.\<close>

definition blank :: "js_value \<Rightarrow> bool" where
  "blank v = (case v of JStr s \<Rightarrow> trim s = [] | _ \<Rightarrow> \<not> truthy v)"

text \<open>Checks 1 to 3 of the specification: one message per blank required field, in
  the order name, greeting, message.\<close>

definition required_errors :: "(string \<times> js_value) list \<Rightarrow> string list" where
  "required_errors kvs =
     (if blank (field kvs ''name'') then [''Name is required''] else []) @
     (if blank (field kvs ''greeting'') then [''Greeting is required''] else []) @
     (if blank (field kvs ''message'') then [''Message is required''] else [])"

text \<open>Check 4 of the specification: an entry fails when it is a string that is not
  blank and does not parse as a URL; each failing entry gives one message, with its
  position counted from 1.\<close>

definition entry_invalid :: "(string \<Rightarrow> bool) \<Rightarrow> js_value \<Rightarrow> bool" where
  "entry_invalid url_parses v =
     (case v of JStr u \<Rightarrow> trim u \<noteq> [] \<and> \<not> url_parses u | _ \<Rightarrow> False)"

definition image_errors :: "(string \<Rightarrow> bool) \<Rightarrow> js_value list \<Rightarrow> string list" where
  "image_errors url_parses entries =
     [''Image URL '' @ num_to_string (i + 1) @ '' is not valid''.
        (i, v) \<leftarrow> enumerate 0 entries, entry_invalid url_parses v]"

text \<open>A candidate object as the validator can take it: its text fields and the
  entries of its \<^verbatim>\<open>images\<close> array are strings where they are not absent. The errors
  the specification lists for it: those of the required fields, then those of the
  image entries.\<close>

definition typed_candidate :: "(string \<times> js_value) list \<Rightarrow> bool" where
  "typed_candidate kvs =
     (text_or_falsy (field kvs ''name'') \<and> text_or_falsy (field kvs ''greeting'') \<and>
      text_or_falsy (field kvs ''message'') \<and> images_checkable (field kvs ''images''))"

definition expected_errors :: "(string \<Rightarrow> bool) \<Rightarrow> (string \<times> js_value) list \<Rightarrow> string list" where
  "expected_errors url_parses kvs =
     required_errors kvs @
     (case field kvs ''images'' of
        JArr entries \<Rightarrow> image_errors url_parses entries
      | _ \<Rightarrow> [])"

section \<open>Sample data\<close>

text \<open>A data source that always serves two records, one that always answers HTTP 500,
  one that serves the records wrapped in an object, and the page after a first
  successful load.\<close>

definition sample_records :: "js_value list" where
  "sample_records =
     [JObj [(''name'', JStr ''Priya''), (''greeting'', JStr ''Happy Raksha Bandhan!''),
            (''message'', JStr ''Dear sister''), (''images'', JArr [])],
      JObj [(''name'', JStr '' ANITA ''), (''greeting'', JStr ''Hello''),
            (''message'', JStr ''With love''), (''images'', JArr [JStr []])]]"

definition sample_source :: data_source where
  "sample_source n = Resolved \<lparr>ok = True, status = 200, json = Inr (JArr sample_records)\<rparr>"

definition failing_source :: data_source where
  "failing_source n = Resolved \<lparr>ok = False, status = 500, json = Inl SyntaxError\<rparr>"

definition wrapped_source :: data_source where
  "wrapped_source n =
     Resolved \<lparr>ok = True, status = 200, json = Inr (JObj [(''sisters'', JArr sample_records)])\<rparr>"

text \<open>A data source that answers HTTP 500 to the first fetch and serves the sample
  records from then on, and one whose document holds an object without a name before
  a Record.\<close>

definition recovering_source :: data_source where
  "recovering_source n = (if n = 0 then failing_source n else sample_source n)"

definition malformed_records :: "js_value list" where
  "malformed_records = [JObj [(''greeting'', JStr ''hi'')], JObj [(''name'', JStr ''Anita'')]]"

definition malformed_source :: data_source where
  "malformed_source n =
     Resolved \<lparr>ok = True, status = 200, json = Inr (JArr malformed_records)\<rparr>"

definition loaded_page :: page where
  "loaded_page = \<lparr>sistersData = JArr sample_records, fetches = 1, console = []\<rparr>"

text \<open>A stand-in for the URL parser of the platform, for running the validator on
  examples: it accepts what starts with \<^verbatim>\<open>https://\<close> and goes on. The examples
  below only give it strings on which the parser of the platform answers the same: an
  \<^verbatim>\<open>https\<close> URL with a host, and strings without a scheme.\<close>

definition sample_url_parser :: "string \<Rightarrow> bool" where
  "sample_url_parser u = (take 8 u = ''https://'' \<and> 8 < length u)"

text \<open>The candidate of the specification's example, and one with a text field that is
  not a string.\<close>

definition example_candidate :: js_value where
  "example_candidate =
     JObj [(''name'', JStr ''A''), (''greeting'', JStr ''G''), (''message'', JStr ''M''),
           (''images'', JArr [JStr ''not a url'', JStr ''https://example.com/x.jpg''])]"

definition mixed_images_candidate :: js_value where
  "mixed_images_candidate =
     JObj [(''name'', JStr ''A''), (''greeting'', JStr ''G''), (''message'', JStr ''M''),
           (''images'', JArr [JStr ''not a url'', JNum 5])]"

definition mistyped_candidate :: js_value where
  "mistyped_candidate =
     JObj [(''name'', JNum 5), (''greeting'', JStr ''G''), (''message'', JStr ''M'')]"

text \<open>A heap with a candidate at address 0 and its \<^verbatim>\<open>images\<close> array at address 1.\<close>

definition sample_heap :: heap where
  "sample_heap =
     [HObj [(''name'', RStr ''A''), (''greeting'', RStr ''G''), (''images'', RRef 1)],
      HArr [RStr ''not a url'', RStr ''https://example.com/x.jpg'', RStr '' '']]"

section \<open>What a lookup computes, and what it leaves behind\<close>




lemma fetches_load [simp]: "fetches (snd (loadSistersData src s)) = Suc (fetches s)"
  by (simp add: loadSistersData_def loadSistersData_try_def Let_def
      split: fetch_outcome.splits sum.splits)

lemma getProp_fails:
  "(getProp st k = Inl e) = ((st = JUndefined \<or> st = JNull) \<and> e = TypeError)"
  by (cases st) auto

lemma check_fst:
  "fst (checkSisterExists src name s) =
    (case getProp (sistersData s) ''length'' of
       Inl e \<Rightarrow> False
     | Inr len \<Rightarrow>
         on_value (js_toLowerCase name) (\<lambda>l. on_value (js_trim l) (\<lambda>k.
           js_some (sistersData (if len = JNum 0 then snd (loadSistersData src s) else s))
             (name_is k))) = Inr True)"
  by (auto simp: checkSisterExists_def checkSisterExists_try_def Let_def split: sum.splits)

lemma get_fst:
  "fst (getSisterData src name s) =
    (case getProp (sistersData s) ''length'' of
       Inl e \<Rightarrow> JNull
     | Inr len \<Rightarrow>
        (case on_value (js_toLowerCase name) (\<lambda>l. on_value (js_trim l) (\<lambda>k.
           on_value (js_find (sistersData (if len = JNum 0 then snd (loadSistersData src s) else s))
                      (name_is k))
             (\<lambda>sister. Inr (if truthy sister then sister else JNull)))) of
           Inl e \<Rightarrow> JNull
         | Inr v \<Rightarrow> v))"
  by (auto simp: getSisterData_def getSisterData_try_def Let_def split: sum.splits)

lemma check_snd:
  "sistersData (snd (checkSisterExists src name s)) =
    (case getProp (sistersData s) ''length'' of
       Inl e \<Rightarrow> sistersData s
     | Inr len \<Rightarrow> sistersData (if len = JNum 0 then snd (loadSistersData src s) else s))"
  "fetches (snd (checkSisterExists src name s)) =
    (case getProp (sistersData s) ''length'' of
       Inl e \<Rightarrow> fetches s
     | Inr len \<Rightarrow> (if len = JNum 0 then Suc (fetches s) else fetches s))"
  by (auto simp: checkSisterExists_def checkSisterExists_try_def Let_def split: sum.splits)

lemma get_snd:
  "sistersData (snd (getSisterData src name s)) =
    (case getProp (sistersData s) ''length'' of
       Inl e \<Rightarrow> sistersData s
     | Inr len \<Rightarrow> sistersData (if len = JNum 0 then snd (loadSistersData src s) else s))"
  "fetches (snd (getSisterData src name s)) =
    (case getProp (sistersData s) ''length'' of
       Inl e \<Rightarrow> fetches s
     | Inr len \<Rightarrow> (if len = JNum 0 then Suc (fetches s) else fetches s))"
  by (auto simp: getSisterData_def getSisterData_try_def Let_def split: sum.splits)

text \<open>Whatever happened before the scan, the answer of \<^verbatim>\<open>checkSisterExists\<close> is the
  scan of the store it leaves behind; a \<^verbatim>\<open>getSisterData\<close> that fetched nothing
  scanned the store it was given.\<close>

lemma check_on_post_store:
  "fst (checkSisterExists src name s) =
     (on_value (js_toLowerCase name) (\<lambda>l. on_value (js_trim l) (\<lambda>k.
         js_some (sistersData (snd (checkSisterExists src name s))) (name_is k))) = Inr True)"
  by (cases name) (auto simp: check_fst check_snd on_value_def getProp_fails split: sum.splits)




section \<open>Agreement of the two lookups\<close>



section \<open>Lookup by normalized name\<close>

lemma name_is_named:
  "named r \<Longrightarrow> name_is (JStr (normalize name)) r = Inr (matches name r)"
  by (cases r)
     (auto simp: name_is_def on_value_def field_def normalize_def
       split: option.splits js_value.splits)

lemma named_truthy: "named r \<Longrightarrow> truthy r"
  by (cases r) auto

lemma find_named:
  "list_all named rs \<Longrightarrow>
   find_elements (name_is (JStr (normalize name))) rs =
     Inr (case find (matches name) rs of Some r \<Rightarrow> r | None \<Rightarrow> JUndefined)"
  by (induction rs) (auto simp: name_is_named)

lemma some_named:
  "list_all named rs \<Longrightarrow>
   some_elements (name_is (JStr (normalize name))) rs = Inr (\<exists>r\<in>set rs. matches name r)"
  by (induction rs) (auto simp: name_is_named)

lemma find_truthy: "list_all named rs \<Longrightarrow> find P rs = Some r \<Longrightarrow> truthy r"
  by (auto simp: find_Some_iff list_all_iff named_truthy)

lemma get_on_post_store:
  "fst (getSisterData src name s) =
     (case on_value (js_toLowerCase name) (\<lambda>l. on_value (js_trim l) (\<lambda>k.
         on_value (js_find (sistersData (snd (getSisterData src name s))) (name_is k))
          (\<lambda>sister. Inr (if truthy sister then sister else JNull)))) of
        Inl e \<Rightarrow> JNull
      | Inr v \<Rightarrow> v)"
  by (cases name) (auto simp: get_fst get_snd on_value_def getProp_fails split: sum.splits)

lemma get_records:
  assumes "sistersData (snd (getSisterData src (JStr name) s)) = JArr rs" "list_all named rs"
  shows "fst (getSisterData src (JStr name) s) =
           (case find (matches name) rs of Some r \<Rightarrow> r | None \<Rightarrow> JNull)"
  using find_truthy[OF assms(2)]
  by (subst get_on_post_store)
     (auto simp: assms(1) on_value_def find_named[OF assms(2), unfolded normalize_def]
       split: option.splits)

lemma check_records:
  assumes "sistersData (snd (checkSisterExists src (JStr name) s)) = JArr rs"
    "list_all named rs"
  shows "fst (checkSisterExists src (JStr name) s) = (\<exists>r\<in>set rs. matches name r)"
  by (subst check_on_post_store)
     (auto simp: assms(1) on_value_def some_named[OF assms(2), unfolded normalize_def])

lemma nonempty_get:
  assumes "sistersData s = JArr rs" "rs \<noteq> []" "list_all named rs"
  shows "getSisterData src (JStr name) s =
           (case find (matches name) rs of Some r \<Rightarrow> r | None \<Rightarrow> JNull, s)"
  using find_truthy[OF assms(3)] assms(2)
  by (auto simp: getSisterData_def getSisterData_try_def on_value_def assms(1)
        find_named[OF assms(3), unfolded normalize_def] split: option.splits)

lemma nonempty_check:
  assumes "sistersData s = JArr rs" "rs \<noteq> []" "list_all named rs"
  shows "checkSisterExists src (JStr name) s = (\<exists>r\<in>set rs. matches name r, s)"
  using assms(2)
  by (auto simp: checkSisterExists_def checkSisterExists_try_def on_value_def assms(1)
        some_named[OF assms(3), unfolded normalize_def] split: option.splits)

text \<open>On any store: an element that is not a Record makes the callback throw.\<close>

lemma name_is_unnamed: "\<not> named r \<Longrightarrow> name_is k r = Inl TypeError"
  by (cases r)
     (auto simp: name_is_def on_value_def field_def split: option.splits js_value.splits)

lemma find_any:
  "find_elements (name_is (JStr (normalize name))) rs =
     (case find (decisive name) rs of
        Some r \<Rightarrow> if named r then Inr r else Inl TypeError
      | None \<Rightarrow> Inr JUndefined)"
  by (induction rs) (auto simp: name_is_named name_is_unnamed decisive_def)

lemma some_any:
  "some_elements (name_is (JStr (normalize name))) rs =
     (case find (decisive name) rs of
        Some r \<Rightarrow> if named r then Inr True else Inl TypeError
      | None \<Rightarrow> Inr False)"
  by (induction rs) (auto simp: name_is_named name_is_unnamed decisive_def)

lemma get_scan:
  "fst (getSisterData src (JStr name) s) =
     scan name (sistersData (snd (getSisterData src (JStr name) s)))"
  by (subst get_on_post_store)
     (auto simp: scan_def on_value_def find_any[unfolded normalize_def] named_truthy
        split: js_value.splits option.splits)

lemma check_scan:
  "fst (checkSisterExists src (JStr name) s) =
     (scan name (sistersData (snd (checkSisterExists src (JStr name) s))) \<noteq> JNull)"
  by (subst check_on_post_store)
     (auto simp: scan_def on_value_def some_any[unfolded normalize_def]
        split: js_value.splits option.splits)

text \<open>
  C1, as the code has it. On a store that is a sequence of Records (every element an
  object whose \<^verbatim>\<open>name\<close> is a string), for every string \<open>name\<close>, the empty one
  included: \<^verbatim>\<open>getSisterData(name)\<close> returns the first Record of the store, in store
  order, whose normalized name equals the normalized \<open>name\<close>, and \<^verbatim>\<open>null\<close> when
  there is none; \<^verbatim>\<open>checkSisterExists(name)\<close> returns \<^verbatim>\<open>true\<close> exactly when there is
  one. A store that is not empty is scanned as it is, and the page is left as it was;
  an empty store is loaded first, and the scan is of the store that the lookup leaves
  behind. On any store whatever, the scan stops at the first element that matches or is
  not a Record: \<^verbatim>\<open>getSisterData\<close> returns that element when it is a Record, and
  \<^verbatim>\<open>null\<close> when it is not one, when there is no such element, and when the store is
  not an array; \<^verbatim>\<open>checkSisterExists\<close> returns \<^verbatim>\<open>true\<close> exactly when
  \<^verbatim>\<open>getSisterData\<close> would not return \<^verbatim>\<open>null\<close>.
\<close>

theorem lookup_first_match:
  "(sistersData s = JArr rs \<and> rs \<noteq> [] \<and> list_all named rs \<longrightarrow>
      getSisterData src (JStr name) s =
        (case find (matches name) rs of Some r \<Rightarrow> r | None \<Rightarrow> JNull, s) \<and>
      checkSisterExists src (JStr name) s = (\<exists>r\<in>set rs. matches name r, s)) \<and>
   (sistersData (snd (getSisterData src (JStr name) s)) = JArr rs \<and> list_all named rs \<longrightarrow>
      fst (getSisterData src (JStr name) s) =
        (case find (matches name) rs of Some r \<Rightarrow> r | None \<Rightarrow> JNull)) \<and>
   (sistersData (snd (checkSisterExists src (JStr name) s)) = JArr rs \<and> list_all named rs \<longrightarrow>
      fst (checkSisterExists src (JStr name) s) = (\<exists>r\<in>set rs. matches name r)) \<and>
   fst (getSisterData src (JStr name) s) =
     scan name (sistersData (snd (getSisterData src (JStr name) s))) \<and>
   fst (checkSisterExists src (JStr name) s) =
     (scan name (sistersData (snd (checkSisterExists src (JStr name) s))) \<noteq> JNull)"
  using nonempty_get[of s rs src name] nonempty_check[of s rs src name]
    get_records[of src name s rs] check_records[of src name s rs]
    get_scan[of src name s] check_scan[of src name s]
  by blast

text \<open>On a fresh page whose data source serves the sample records, the lookup of
  \<^verbatim>\<open>'  Anita'\<close> loads the store and finds the second record, whose raw name is
  \<^verbatim>\<open>' ANITA '\<close>; on the loaded page the lookup of the empty name finds nothing.\<close>

theorem lookup_first_match_witness:
  "fst (getSisterData sample_source (JStr ''  Anita'') initial_page) = sample_records ! 1 \<and>
   fst (checkSisterExists sample_source (JStr ''  Anita'') initial_page) \<and>
   getSisterData sample_source (JStr []) loaded_page = (JNull, loaded_page) \<and>
   checkSisterExists sample_source (JStr []) loaded_page = (False, loaded_page)"
proof -
  have g: "sistersData (snd (getSisterData sample_source (JStr ''  Anita'') initial_page)) =
             JArr sample_records"
    by code_simp
  have c: "sistersData (snd (checkSisterExists sample_source (JStr ''  Anita'') initial_page)) =
             JArr sample_records"
    by code_simp
  have l: "sistersData loaded_page = JArr sample_records" "sample_records \<noteq> []"
    by (simp_all add: loaded_page_def sample_records_def)
  have n: "list_all named sample_records"
    by code_simp
  have m: "(case find (matches ''  Anita'') sample_records of Some r \<Rightarrow> r | None \<Rightarrow> JNull) =
             sample_records ! 1"
    "\<exists>r\<in>set sample_records. matches ''  Anita'' r"
    "(case find (matches []) sample_records of Some r \<Rightarrow> r | None \<Rightarrow> JNull) = JNull"
    "\<not> (\<exists>r\<in>set sample_records. matches [] r)"
    by code_simp+
  have 1: "fst (getSisterData sample_source (JStr ''  Anita'') initial_page) =
             sample_records ! 1"
    "fst (checkSisterExists sample_source (JStr ''  Anita'') initial_page)"
    using lookup_first_match[of initial_page sample_records sample_source "''  Anita''"]
      g c n m
    by simp_all
  have 2: "getSisterData sample_source (JStr []) loaded_page = (JNull, loaded_page)"
    "checkSisterExists sample_source (JStr []) loaded_page = (False, loaded_page)"
    using lookup_first_match[of loaded_page sample_records sample_source "[]"] l n m
    by simp_all
  show ?thesis
    using 1 2 by blast
qed

text \<open>C1, as the claim states it, fails on a store that holds an element without a
  string name before the match: when the document is
  \<^verbatim>\<open>[{greeting: 'hi'}, {name: 'Anita'}]\<close>, the callback throws on the first element
  (\<^verbatim>\<open>sister.name\<close> is \<^verbatim>\<open>undefined\<close>), the \<^verbatim>\<open>catch\<close> answers, and the lookup of
  \<^verbatim>\<open>'Anita'\<close> gives \<^verbatim>\<open>null\<close> and \<^verbatim>\<open>false\<close> although the second element matches.\<close>

theorem lookup_stops_at_unnamed:
  "sistersData (snd (getSisterData malformed_source (JStr ''Anita'') initial_page)) =
     JArr malformed_records \<and>
   find (matches ''Anita'') malformed_records = Some (malformed_records ! 1) \<and>
   fst (getSisterData malformed_source (JStr ''Anita'') initial_page) = JNull \<and>
   \<not> fst (checkSisterExists malformed_source (JStr ''Anita'') initial_page)"
  by code_simp

section \<open>The loader\<close>

lemma load_store:
  "sistersData (snd (loadSistersData src s)) =
     (case src (fetches s) of
        Rejected e \<Rightarrow> JArr []
      | Resolved resp \<Rightarrow>
          if ok resp then (case json resp of Inr v \<Rightarrow> v | Inl e \<Rightarrow> JArr []) else JArr [])"
  by (simp add: loadSistersData_def loadSistersData_try_def Let_def
      split: fetch_outcome.splits sum.splits)

lemma load_returns_store:
  "fst (loadSistersData src s) = sistersData (snd (loadSistersData src s))"
  by (simp add: loadSistersData_def loadSistersData_try_def Let_def
      split: fetch_outcome.splits sum.splits)

lemma load_fails:
  "fetch_fails (src (fetches s)) \<Longrightarrow> sistersData (snd (loadSistersData src s)) = JArr []"
  by (auto simp: load_store fetch_fails_def isl_def split: fetch_outcome.splits sum.splits)

lemma get_after_failure:
  assumes "sistersData s = JArr []" "fetch_fails (src (fetches s))"
  shows "fst (getSisterData src name s) = JNull"
  by (cases name)
     (simp_all add: get_fst assms(1) load_fails[of src s, OF assms(2)] on_value_def)

lemma get_reloads:
  "sistersData s = JArr [] \<Longrightarrow>
   fst (getSisterData src (JStr n) s) = scan n (sistersData (snd (loadSistersData src s)))"
  using get_scan[of src n s] by (simp add: get_snd)

lemma get_refetches:
  "sistersData s = JArr [] \<Longrightarrow> fetches (snd (getSisterData src name s)) = Suc (fetches s)"
  by (simp add: get_snd)

text \<open>
  C5, as the code has it. \<^verbatim>\<open>loadSistersData\<close> has no exceptional outcome: it returns
  a value and a page whatever the data source does. When the fetch it makes fails (a
  network error, a status that is not a success, a body that is not JSON), it returns
  the empty array and leaves the store empty. A \<^verbatim>\<open>getSisterData\<close> that follows has no
  exceptional outcome either; it finds the store empty and fetches again, and what it
  returns is the scan of the store that this second load leaves: \<^verbatim>\<open>null\<close>, whatever
  the name, when the data source fails again.
\<close>

theorem load_failure_is_soft:
  "fetch_fails (src (fetches s)) \<longrightarrow>
     (let (v, s1) = loadSistersData src s
      in v = JArr [] \<and> sistersData s1 = JArr [] \<and>
         fetches (snd (getSisterData src name s1)) = Suc (fetches s1) \<and>
         fst (getSisterData src (JStr n) s1) =
           scan n (sistersData (snd (loadSistersData src s1))) \<and>
         (fetch_fails (src (fetches s1)) \<longrightarrow> fst (getSisterData src name s1) = JNull))"
proof
  assume f: "fetch_fails (src (fetches s))"
  obtain v s1 where l: "loadSistersData src s = (v, s1)"
    by (cases "loadSistersData src s")
  have s1: "sistersData s1 = JArr []"
    using load_fails[of src s, OF f] l by simp
  have v: "v = JArr []"
    using load_returns_store[of src s] l s1 by simp
  show "let (v, s1) = loadSistersData src s
      in v = JArr [] \<and> sistersData s1 = JArr [] \<and>
         fetches (snd (getSisterData src name s1)) = Suc (fetches s1) \<and>
         fst (getSisterData src (JStr n) s1) =
           scan n (sistersData (snd (loadSistersData src s1))) \<and>
         (fetch_fails (src (fetches s1)) \<longrightarrow> fst (getSisterData src name s1) = JNull)"
    using s1 v get_after_failure[of s1 src name, OF s1]
      get_reloads[OF s1, of src n] get_refetches[OF s1, of src name]
    by (simp add: l)
qed

text \<open>With a data source that answers HTTP 500 every time: the load gives the empty
  array, and the lookup of \<^verbatim>\<open>'anyone'\<close> after it fetches once more and gives
  \<^verbatim>\<open>null\<close>.\<close>

theorem load_failure_is_soft_witness:
  "fst (loadSistersData failing_source initial_page) = JArr [] \<and>
   sistersData (snd (loadSistersData failing_source initial_page)) = JArr [] \<and>
   fetches (snd (getSisterData failing_source (JStr ''anyone'')
         (snd (loadSistersData failing_source initial_page)))) = 2 \<and>
   fst (getSisterData failing_source (JStr ''anyone'')
         (snd (loadSistersData failing_source initial_page))) = JNull"
proof -
  have f: "fetch_fails (failing_source n)" for n
    by (simp add: fetch_fails_def failing_source_def)
  have i: "fetches initial_page = 0"
    by (simp add: initial_page_def)
  show ?thesis
    using load_failure_is_soft[of failing_source initial_page "JStr ''anyone''" "[]"] f i
    by (simp add: split_beta Let_def)
qed

text \<open>C5, as the claim states it, fails when the data source recovers: after a load
  that met HTTP 500, the store is empty, so the lookup of \<^verbatim>\<open>'priya'\<close> fetches again,
  gets the records this time, and returns the first of them, not \<^verbatim>\<open>null\<close>.\<close>

theorem lookup_after_failure_finds:
  "fst (loadSistersData recovering_source initial_page) = JArr [] \<and>
   sistersData (snd (loadSistersData recovering_source initial_page)) = JArr [] \<and>
   fst (getSisterData recovering_source (JStr ''priya'')
         (snd (loadSistersData recovering_source initial_page))) = sample_records ! 0 \<and>
   sample_records ! 0 \<noteq> JNull"
  by code_simp

lemma named_matches_itself:
  "getProp r ''name'' = Inr (JStr n) \<Longrightarrow> matches n r"
  by (cases r) (auto simp: field_def split: option.splits if_splits)

lemma exists_after_load:
  assumes "sistersData s1 = JArr rs" "list_all named rs" "r \<in> set rs"
    "getProp r ''name'' = Inr (JStr n)"
  shows "fst (checkSisterExists src (JStr n) s1)"
proof -
  have "rs \<noteq> []" using assms(3) by auto
  from nonempty_check[OF assms(1) this assms(2)] named_matches_itself[OF assms(4)] assms(3)
  show ?thesis by auto
qed

text \<open>
  C6. Round trip. When the fetch of \<^verbatim>\<open>loadSistersData\<close> succeeds and its body parses
  to an array \<open>rs\<close> of Records, the store afterwards is \<open>rs\<close>, so its length is the
  number of Records served, and \<^verbatim>\<open>checkSisterExists\<close> on the page just loaded answers
  \<^verbatim>\<open>true\<close> for the raw name of every Record of the store.
\<close>

theorem load_round_trip:
  "src (fetches s) = Resolved resp \<and> ok resp \<and> json resp = Inr (JArr rs) \<and>
   list_all named rs \<longrightarrow>
     fst (loadSistersData src s) = JArr rs \<and>
     sistersData (snd (loadSistersData src s)) = JArr rs \<and>
     getProp (sistersData (snd (loadSistersData src s))) ''length'' =
       Inr (JNum (int (length rs))) \<and>
     (\<forall>r\<in>set rs. \<forall>n. getProp r ''name'' = Inr (JStr n) \<longrightarrow>
        fst (checkSisterExists src (JStr n) (snd (loadSistersData src s))))"
proof (intro impI, elim conjE)
  assume a: "src (fetches s) = Resolved resp" "ok resp" "json resp = Inr (JArr rs)"
    and n: "list_all named rs"
  have st: "sistersData (snd (loadSistersData src s)) = JArr rs"
    by (simp add: load_store a)
  show "fst (loadSistersData src s) = JArr rs \<and>
     sistersData (snd (loadSistersData src s)) = JArr rs \<and>
     getProp (sistersData (snd (loadSistersData src s))) ''length'' =
       Inr (JNum (int (length rs))) \<and>
     (\<forall>r\<in>set rs. \<forall>n. getProp r ''name'' = Inr (JStr n) \<longrightarrow>
        fst (checkSisterExists src (JStr n) (snd (loadSistersData src s))))"
    using exists_after_load[OF st n] by (simp add: load_returns_store st)
qed

text \<open>The sample source serves two Records: after the load the store holds both, and
  the raw names \<^verbatim>\<open>'Priya'\<close> and \<^verbatim>\<open>' ANITA '\<close> are both found.\<close>

theorem load_round_trip_witness:
  "sistersData (snd (loadSistersData sample_source initial_page)) = JArr sample_records \<and>
   getProp (sistersData (snd (loadSistersData sample_source initial_page))) ''length'' =
     Inr (JNum 2) \<and>
   fst (checkSisterExists sample_source (JStr ''Priya'')
         (snd (loadSistersData sample_source initial_page))) \<and>
   fst (checkSisterExists sample_source (JStr '' ANITA '')
         (snd (loadSistersData sample_source initial_page)))"
proof -
  have a: "sample_source (fetches initial_page) =
             Resolved \<lparr>ok = True, status = 200, json = Inr (JArr sample_records)\<rparr>"
    by (simp add: sample_source_def)
  have n: "list_all named sample_records"
    by code_simp
  have r: "set sample_records = {sample_records ! 0, sample_records ! 1}"
    "length sample_records = 2"
    "getProp (sample_records ! 0) ''name'' = Inr (JStr ''Priya'')"
    "getProp (sample_records ! 1) ''name'' = Inr (JStr '' ANITA '')"
    by (simp_all add: sample_records_def)
  show ?thesis
    using load_round_trip[of sample_source initial_page
        "\<lparr>ok = True, status = 200, json = Inr (JArr sample_records)\<rparr>" sample_records]
      a n r
    by simp
qed

text \<open>
  C8, as the code has it. After \<^verbatim>\<open>loadSistersData\<close> the store is either the whole
  value that \<^verbatim>\<open>response.json()\<close> produced, when the fetch resolved with a success
  status and the body parsed, or the empty array; nothing in between. The value
  returned is the store. The loader does not look at the shape of the parsed value:
  the store is a sequence of Records when the document is one.
\<close>

theorem load_replaces_store:
  "sistersData (snd (loadSistersData src s)) =
     (case src (fetches s) of
        Rejected e \<Rightarrow> JArr []
      | Resolved resp \<Rightarrow>
          if ok resp then (case json resp of Inr v \<Rightarrow> v | Inl e \<Rightarrow> JArr []) else JArr []) \<and>
   fst (loadSistersData src s) = sistersData (snd (loadSistersData src s)) \<and>
   fetches (snd (loadSistersData src s)) = Suc (fetches s)"
  by (simp add: load_store load_returns_store)

text \<open>C8, as the claim states it, fails when the document is JSON of another shape: a
  source that serves the records wrapped in an object leaves that object in the
  store, which is not a sequence of Records.\<close>

theorem load_store_not_records:
  "sistersData (snd (loadSistersData wrapped_source initial_page)) =
     JObj [(''sisters'', JArr sample_records)] \<and>
   \<not> record_seq (sistersData (snd (loadSistersData wrapped_source initial_page)))"
  by (simp add: load_store wrapped_source_def initial_page_def record_seq_def)

section \<open>When a lookup loads\<close>

lemma run_lookup_fetches:
  "fetches (run_lookup src c s) =
     (if getProp (sistersData s) ''length'' = Inr (JNum 0)
      then Suc (fetches s) else fetches s)"
  by (cases c) (auto simp: check_snd get_snd split: sum.splits)

lemma run_lookup_store:
  "sistersData (run_lookup src c s) =
     (if getProp (sistersData s) ''length'' = Inr (JNum 0)
      then sistersData (snd (loadSistersData src s)) else sistersData s)"
  by (cases c) (auto simp: check_snd get_snd split: sum.splits)

lemma run_lookups_loaded:
  "getProp (sistersData s) ''length'' \<noteq> Inr (JNum 0) \<Longrightarrow>
   sistersData (run_lookups src cs s) = sistersData s \<and>
   fetches (run_lookups src cs s) = fetches s"
  by (induction cs arbitrary: s) (simp_all add: run_lookup_fetches run_lookup_store)

lemma run_lookups_first_load:
  assumes "sistersData s = JArr []" "src (fetches s) = Resolved resp" "ok resp"
    "json resp = Inr (JArr (r # rs))"
  shows "fetches (run_lookups src (c # cs) s) = Suc (fetches s) \<and>
         sistersData (run_lookups src (c # cs) s) = JArr (r # rs)"
proof -
  let ?s1 = "run_lookup src c s"
  have st: "sistersData ?s1 = JArr (r # rs)"
    by (simp add: run_lookup_store assms load_store)
  have f: "fetches ?s1 = Suc (fetches s)"
    by (simp add: run_lookup_fetches assms(1))
  have "getProp (sistersData ?s1) ''length'' \<noteq> Inr (JNum 0)"
    by (simp add: st)
  from run_lookups_loaded[OF this, of src cs] st f show ?thesis by simp
qed

text \<open>
  C7, as the code has it. A lookup fetches exactly when the length of the store is 0
  as the lookup starts, once, and then the store becomes what the load leaves;
  otherwise it fetches nothing and leaves the store as it is. So in a session of
  lookups, each awaited before the next: from a store whose length is not 0 no lookup
  fetches and the store never changes; and from the empty store, when the first fetch
  brings an array that is not empty, the session fetches exactly once, however many
  lookups it makes, and the store stays that array.
\<close>

theorem lazy_load_policy:
  "fetches (run_lookup src c s) =
     (if getProp (sistersData s) ''length'' = Inr (JNum 0)
      then Suc (fetches s) else fetches s) \<and>
   sistersData (run_lookup src c s) =
     (if getProp (sistersData s) ''length'' = Inr (JNum 0)
      then sistersData (snd (loadSistersData src s)) else sistersData s) \<and>
   (getProp (sistersData s) ''length'' \<noteq> Inr (JNum 0) \<longrightarrow>
      sistersData (run_lookups src cs s) = sistersData s \<and>
      fetches (run_lookups src cs s) = fetches s) \<and>
   (sistersData s = JArr [] \<and> src (fetches s) = Resolved resp \<and> ok resp \<and>
    json resp = Inr (JArr (r # rs)) \<longrightarrow>
      fetches (run_lookups src (c # cs) s) = Suc (fetches s) \<and>
      sistersData (run_lookups src (c # cs) s) = JArr (r # rs))"
  using run_lookup_fetches[of src c s] run_lookup_store[of src c s]
    run_lookups_loaded[of s src cs] run_lookups_first_load[of s src resp r rs c cs]
  by blast

text \<open>A session of three lookups on a fresh page whose data source serves the sample
  records fetches once; a session on the loaded page fetches nothing more.\<close>

theorem lazy_load_policy_witness:
  "fetches (run_lookups sample_source
      [Find (JStr ''priya''), Exists (JStr ''nobody''), Find (JStr ''anita'')] initial_page) = 1 \<and>
   sistersData (run_lookups sample_source
      [Find (JStr ''priya''), Exists (JStr ''nobody''), Find (JStr ''anita'')] initial_page) =
     JArr sample_records \<and>
   fetches (run_lookups sample_source [Exists (JStr ''nobody'')] loaded_page) = 1"
proof -
  have a: "sistersData initial_page = JArr []" "fetches initial_page = 0"
    "sample_source 0 = Resolved \<lparr>ok = True, status = 200, json = Inr (JArr sample_records)\<rparr>"
    "sample_records = sample_records ! 0 # [sample_records ! 1]"
    by (simp_all add: initial_page_def sample_source_def sample_records_def)
  have l: "getProp (sistersData loaded_page) ''length'' \<noteq> Inr (JNum 0)"
    "fetches loaded_page = 1"
    by (simp_all add: loaded_page_def sample_records_def)
  show ?thesis
    using lazy_load_policy[of sample_source "Find (JStr ''priya'')" initial_page
        "[Exists (JStr ''nobody''), Find (JStr ''anita'')]"
        "\<lparr>ok = True, status = 200, json = Inr (JArr sample_records)\<rparr>"
        "sample_records ! 0" "[sample_records ! 1]"]
      lazy_load_policy[of sample_source "Find (JStr ''priya'')" loaded_page
        "[Exists (JStr ''nobody'')]"]
      a l
    by simp
qed

text \<open>C7, as the claim states it, fails when the load brings nothing: with a data
  source that answers HTTP 500, two lookups in a row on a fresh page fetch twice.\<close>

theorem lookups_fetch_again:
  "fetches (run_lookups failing_source
      [Find (JStr ''anyone''), Find (JStr ''anyone'')] initial_page) = 2"
  by code_simp

section \<open>What the validator returns\<close>

lemma trim_Nil [simp]: "trim [] = []"
  by (simp add: trim_def)

lemma getProp_field: "getProp (JObj kvs) k = Inr (field kvs k)"
  by (simp add: field_def)

lemma require_field_ok:
  "text_or_falsy (field kvs k) \<Longrightarrow>
   require_field (JObj kvs) k m errs =
     Inr (if blank (field kvs k) then errs @ [m] else errs)"
  by (cases "field kvs k") (auto simp: require_field_def on_value_def field_def blank_def)

lemma check_image_ok:
  "text_or_falsy v \<Longrightarrow>
   check_image p v i errs =
     Inr (if entry_invalid p v
          then errs @ [''Image URL '' @ num_to_string (i + 1) @ '' is not valid'']
          else errs)"
  by (cases v) (auto simp: check_image_def on_value_def entry_invalid_def)

lemma forEach_ok:
  "list_all text_or_falsy es \<Longrightarrow>
   forEach_from (check_image p) es i errs =
     Inr (errs @ [''Image URL '' @ num_to_string (j + 1) @ '' is not valid''.
                   (j, v) \<leftarrow> enumerate i es, entry_invalid p v])"
  by (induction es arbitrary: i errs) (simp_all add: check_image_ok)

lemma validate_images:
  assumes "text_or_falsy (field kvs ''name'')" "text_or_falsy (field kvs ''greeting'')"
    "text_or_falsy (field kvs ''message'')"
    "field kvs ''images'' = JArr es" "list_all text_or_falsy es"
  shows "validateSisterData p (JObj kvs) =
     Inr \<lparr>isValid = (required_errors kvs @ image_errors p es = []),
          errors = required_errors kvs @ image_errors p es\<rparr>"
  unfolding validateSisterData_def getProp_field assms(4)
  by (simp add: require_field_ok assms(1-3) on_value_def forEach_ok[OF assms(5)]
      required_errors_def image_errors_def)

lemma validate_no_images:
  assumes "text_or_falsy (field kvs ''name'')" "text_or_falsy (field kvs ''greeting'')"
    "text_or_falsy (field kvs ''message'')"
    "\<not> isArray (field kvs ''images'')"
  shows "validateSisterData p (JObj kvs) =
     Inr \<lparr>isValid = (required_errors kvs = []), errors = required_errors kvs\<rparr>"
  unfolding validateSisterData_def getProp_field
  using assms(4)
  by (simp add: require_field_ok assms(1-3) on_value_def required_errors_def)

lemma validate_result:
  "validateSisterData p c = Inr r \<Longrightarrow> isValid r = (errors r = [])"
  by (auto simp: validateSisterData_def on_value_def split: sum.splits if_splits)

lemma require_field_throws:
  "\<not> text_or_falsy (field kvs k) \<Longrightarrow> require_field (JObj kvs) k m errs = Inl TypeError"
  unfolding require_field_def getProp_field
  by (cases "field kvs k") (auto simp: on_value_def)

lemma check_image_throws:
  "\<not> text_or_falsy v \<Longrightarrow> check_image p v i errs = Inl TypeError"
  by (cases v) (auto simp: check_image_def on_value_def)

lemma forEach_throws:
  "\<not> list_all text_or_falsy es \<Longrightarrow> forEach_from (check_image p) es i errs = Inl TypeError"
proof (induction es arbitrary: i errs)
  case Nil
  then show ?case by simp
next
  case (Cons v es)
  show ?case
  proof (cases "text_or_falsy v")
    case True
    then show ?thesis using Cons by (simp add: check_image_ok)
  next
    case False
    then show ?thesis by (simp add: check_image_throws)
  qed
qed

lemma validate_on_objects:
  "validateSisterData p (JObj kvs) =
     (if typed_candidate kvs
      then Inr \<lparr>isValid = (expected_errors p kvs = []), errors = expected_errors p kvs\<rparr>
      else Inl TypeError)"
proof (cases "typed_candidate kvs")
  case True
  then have t: "text_or_falsy (field kvs ''name'')" "text_or_falsy (field kvs ''greeting'')"
    "text_or_falsy (field kvs ''message'')" and i: "images_checkable (field kvs ''images'')"
    by (simp_all add: typed_candidate_def)
  show ?thesis
  proof (cases "field kvs ''images''")
    case (JArr es)
    then have "list_all text_or_falsy es"
      using i by (simp add: images_checkable_def)
    from validate_images[OF t JArr this, of p] True JArr show ?thesis
      by (simp add: expected_errors_def)
  qed (use True validate_no_images[OF t, of p] in \<open>simp_all add: expected_errors_def\<close>)
next
  case False
  consider "\<not> text_or_falsy (field kvs ''name'')"
    | "text_or_falsy (field kvs ''name'')" "\<not> text_or_falsy (field kvs ''greeting'')"
    | "text_or_falsy (field kvs ''name'')" "text_or_falsy (field kvs ''greeting'')"
      "\<not> text_or_falsy (field kvs ''message'')"
    | "text_or_falsy (field kvs ''name'')" "text_or_falsy (field kvs ''greeting'')"
      "text_or_falsy (field kvs ''message'')" "\<not> images_checkable (field kvs ''images'')"
    using False by (auto simp: typed_candidate_def)
  then have "validateSisterData p (JObj kvs) = Inl TypeError"
  proof cases
    case 1
    then show ?thesis
      by (simp add: validateSisterData_def require_field_throws on_value_def)
  next
    case 2
    then show ?thesis
      by (simp add: validateSisterData_def require_field_throws require_field_ok on_value_def)
  next
    case 3
    then show ?thesis
      by (simp add: validateSisterData_def require_field_throws require_field_ok on_value_def)
  next
    case 4
    then obtain es where es: "field kvs ''images'' = JArr es" "\<not> list_all text_or_falsy es"
      by (auto simp: images_checkable_def split: js_value.splits)
    show ?thesis
      unfolding validateSisterData_def getProp_field es(1)
      by (simp add: require_field_ok 4 on_value_def forEach_throws[OF es(2)])
  qed
  then show ?thesis using False by simp
qed

text \<open>
  C2. \<^verbatim>\<open>validateSisterData({})\<close> returns exactly three errors, \<^verbatim>\<open>Name is required\<close>,
  \<^verbatim>\<open>Greeting is required\<close>, \<^verbatim>\<open>Message is required\<close>, in this order, and is not valid:
  every check runs, none stops the others, whatever the URL parser.
\<close>

theorem validate_empty_object:
  "validateSisterData url_parses (JObj []) =
     Inr \<lparr>isValid = False,
          errors = [''Name is required'', ''Greeting is required'', ''Message is required'']\<rparr>"
  by (simp add: validateSisterData_def require_field_def on_value_def)

text \<open>
  C3, as the code has it. For every candidate object whose \<^verbatim>\<open>images\<close> is an array
  and whose text fields and entries are each a string or absent: the errors are those
  of the required fields, followed by one \<^verbatim>\<open>Image URL i is not valid\<close> for each entry,
  in order and with \<open>i\<close> counted from 1, that is a string, not blank, and does not
  parse as a URL; a blank entry gives none. For a candidate object with a text field or
  an entry that is neither a string nor absent, \<^verbatim>\<open>validateSisterData\<close> throws a
  \<^verbatim>\<open>TypeError\<close> and reports no error at all. In particular, when the parser rejects
  \<^verbatim>\<open>not a url\<close> and accepts \<^verbatim>\<open>https://example.com/x.jpg\<close>, the example of the
  specification returns the single error \<^verbatim>\<open>Image URL 1 is not valid\<close>.
\<close>

theorem image_entries_checked:
  "(text_or_falsy (field kvs ''name'') \<and> text_or_falsy (field kvs ''greeting'') \<and>
    text_or_falsy (field kvs ''message'') \<and>
    field kvs ''images'' = JArr entries \<and> list_all text_or_falsy entries \<longrightarrow>
      validateSisterData url_parses (JObj kvs) =
        Inr \<lparr>isValid = (required_errors kvs @ image_errors url_parses entries = []),
             errors = required_errors kvs @ image_errors url_parses entries\<rparr>) \<and>
   (\<not> typed_candidate kvs \<longrightarrow> validateSisterData url_parses (JObj kvs) = Inl TypeError) \<and>
   (\<not> url_parses ''not a url'' \<and> url_parses ''https://example.com/x.jpg'' \<longrightarrow>
      validateSisterData url_parses example_candidate =
        Inr \<lparr>isValid = False, errors = [''Image URL 1 is not valid'']\<rparr>)"
proof (intro conjI impI)
  assume "text_or_falsy (field kvs ''name'') \<and> text_or_falsy (field kvs ''greeting'') \<and>
    text_or_falsy (field kvs ''message'') \<and>
    field kvs ''images'' = JArr entries \<and> list_all text_or_falsy entries"
  then show "validateSisterData url_parses (JObj kvs) =
        Inr \<lparr>isValid = (required_errors kvs @ image_errors url_parses entries = []),
             errors = required_errors kvs @ image_errors url_parses entries\<rparr>"
    using validate_images[of kvs entries url_parses] by blast
next
  assume "\<not> typed_candidate kvs"
  then show "validateSisterData url_parses (JObj kvs) = Inl TypeError"
    by (simp add: validate_on_objects)
next
  assume p: "\<not> url_parses ''not a url'' \<and> url_parses ''https://example.com/x.jpg''"
  have t: "trim ''A'' = ''A''" "trim ''G'' = ''G''" "trim ''M'' = ''M''"
    "trim ''not a url'' = ''not a url''"
    "trim ''https://example.com/x.jpg'' = ''https://example.com/x.jpg''"
    by code_simp+
  have n: "num_to_string (Suc 0) = ''1''"
    by code_simp
  show "validateSisterData url_parses example_candidate =
        Inr \<lparr>isValid = False, errors = [''Image URL 1 is not valid'']\<rparr>"
    using p
    by (simp add: example_candidate_def validateSisterData_def require_field_def
        check_image_def on_value_def t n)
qed

text \<open>With the sample parser: the example of the specification; a candidate with a
  blank name whose five entries are a string without a scheme, \<^verbatim>\<open>null\<close>, a blank
  string, another string without a scheme and an \<^verbatim>\<open>https\<close> URL; and a candidate whose
  second entry is \<^verbatim>\<open>true\<close>.\<close>

theorem image_entries_checked_witness:
  "validateSisterData sample_url_parser example_candidate =
     Inr \<lparr>isValid = False, errors = [''Image URL 1 is not valid'']\<rparr> \<and>
   validateSisterData sample_url_parser
     (JObj [(''name'', JStr '' ''), (''greeting'', JStr ''G''), (''message'', JStr ''M''),
            (''images'', JArr [JStr ''x'', JNull, JStr ''  '', JStr ''also bad'',
                               JStr ''https://example.com/x.jpg''])]) =
     Inr \<lparr>isValid = False,
          errors = [''Name is required'', ''Image URL 1 is not valid'',
                    ''Image URL 4 is not valid'']\<rparr> \<and>
   validateSisterData sample_url_parser
     (JObj [(''name'', JStr ''A''), (''greeting'', JStr ''G''), (''message'', JStr ''M''),
            (''images'', JArr [JStr ''https://example.com/x.jpg'', JBool True])]) =
     Inl TypeError"
proof -
  let ?kvs = "[(''name'', JStr '' ''), (''greeting'', JStr ''G''), (''message'', JStr ''M''),
            (''images'', JArr [JStr ''x'', JNull, JStr ''  '', JStr ''also bad'',
                               JStr ''https://example.com/x.jpg''])]"
  let ?es = "[JStr ''x'', JNull, JStr ''  '', JStr ''also bad'',
              JStr ''https://example.com/x.jpg'']"
  let ?kvs3 = "[(''name'', JStr ''A''), (''greeting'', JStr ''G''), (''message'', JStr ''M''),
            (''images'', JArr [JStr ''https://example.com/x.jpg'', JBool True])]"
  have p: "\<not> sample_url_parser ''not a url''" "sample_url_parser ''https://example.com/x.jpg''"
    by (simp_all add: sample_url_parser_def)
  have h: "text_or_falsy (field ?kvs ''name'')" "text_or_falsy (field ?kvs ''greeting'')"
    "text_or_falsy (field ?kvs ''message'')" "field ?kvs ''images'' = JArr ?es"
    "list_all text_or_falsy ?es"
    by (simp_all add: field_def)
  have e: "required_errors ?kvs @ image_errors sample_url_parser ?es =
      [''Name is required'', ''Image URL 1 is not valid'', ''Image URL 4 is not valid'']"
    by code_simp
  have u: "\<not> typed_candidate ?kvs3"
    by (simp add: typed_candidate_def field_def images_checkable_def)
  have 1: "validateSisterData sample_url_parser example_candidate =
     Inr \<lparr>isValid = False, errors = [''Image URL 1 is not valid'']\<rparr>"
    using image_entries_checked[of ?kvs ?es sample_url_parser] p
    by blast
  have 2: "validateSisterData sample_url_parser (JObj ?kvs) =
     Inr \<lparr>isValid = False,
          errors = [''Name is required'', ''Image URL 1 is not valid'',
                    ''Image URL 4 is not valid'']\<rparr>"
    using image_entries_checked[of ?kvs ?es sample_url_parser] h e
    by simp
  have 3: "validateSisterData sample_url_parser (JObj ?kvs3) = Inl TypeError"
    using image_entries_checked[of ?kvs3 _ sample_url_parser] u
    by blast
  show ?thesis
    using 1 2 3 by blast
qed

text \<open>C3, as the claim states it, fails on an entry that is not a string: with
  \<^verbatim>\<open>images: ['not a url', 5]\<close> the first entry is not blank and does not parse, yet
  no error is reported for it, because \<^verbatim>\<open>url.trim()\<close> throws a \<^verbatim>\<open>TypeError\<close> on
  the second entry and the exception leaves the function with the errors collected so
  far.\<close>

theorem image_check_throws_on_number:
  "entry_invalid sample_url_parser (JStr ''not a url'') \<and>
   validateSisterData sample_url_parser mixed_images_candidate = Inl TypeError"
  by code_simp

text \<open>
  C4, as the code has it. On a candidate object, \<^verbatim>\<open>validateSisterData\<close> returns
  exactly when \<^verbatim>\<open>name\<close>, \<^verbatim>\<open>greeting\<close> and \<^verbatim>\<open>message\<close> are each a string or
  absent and \<^verbatim>\<open>images\<close> is not an array or is an array of entries that are each a
  string or absent; it then returns the errors of the specification, and is valid
  exactly when there are none. On every other candidate object it throws a
  \<^verbatim>\<open>TypeError\<close>. Whenever it returns, on any candidate, the result is valid exactly
  when it has no errors. A candidate whose three text fields are strings that are not
  blank and which has no \<^verbatim>\<open>images\<close> field is valid, with no errors.
\<close>

theorem validate_returns_on_typed:
  "validateSisterData url_parses (JObj kvs) =
     (if typed_candidate kvs
      then Inr \<lparr>isValid = (expected_errors url_parses kvs = []),
                errors = expected_errors url_parses kvs\<rparr>
      else Inl TypeError) \<and>
   (validateSisterData url_parses c = Inr r \<longrightarrow> isValid r = (errors r = [])) \<and>
   (field kvs ''name'' = JStr n \<and> trim n \<noteq> [] \<and>
    field kvs ''greeting'' = JStr g \<and> trim g \<noteq> [] \<and>
    field kvs ''message'' = JStr m \<and> trim m \<noteq> [] \<and>
    map_of kvs ''images'' = None \<longrightarrow>
      validateSisterData url_parses (JObj kvs) = Inr \<lparr>isValid = True, errors = []\<rparr>)"
proof (intro conjI impI)
  show "validateSisterData url_parses (JObj kvs) =
     (if typed_candidate kvs
      then Inr \<lparr>isValid = (expected_errors url_parses kvs = []),
                errors = expected_errors url_parses kvs\<rparr>
      else Inl TypeError)"
    by (rule validate_on_objects)
next
  assume "validateSisterData url_parses c = Inr r"
  then show "isValid r = (errors r = [])"
    by (rule validate_result)
next
  assume a: "field kvs ''name'' = JStr n \<and> trim n \<noteq> [] \<and>
    field kvs ''greeting'' = JStr g \<and> trim g \<noteq> [] \<and>
    field kvs ''message'' = JStr m \<and> trim m \<noteq> [] \<and>
    map_of kvs ''images'' = None"
  then have i: "\<not> isArray (field kvs ''images'')"
    by (simp add: field_def)
  have "required_errors kvs = []"
    using a by (simp add: required_errors_def blank_def)
  with validate_no_images[OF _ _ _ i, of url_parses] a
  show "validateSisterData url_parses (JObj kvs) = Inr \<lparr>isValid = True, errors = []\<rparr>"
    by simp
qed

text \<open>The candidate \<^verbatim>\<open>{name: 'A', greeting: 'G', message: 'M'}\<close> of the specification,
  which has no \<^verbatim>\<open>images\<close> field, is valid; a candidate with no name and an
  \<^verbatim>\<open>images\<close> array gets its two errors; and the result for the empty object is not
  valid and has errors.\<close>

theorem validate_returns_on_typed_witness:
  "validateSisterData sample_url_parser
     (JObj [(''name'', JStr ''A''), (''greeting'', JStr ''G''), (''message'', JStr ''M'')]) =
     Inr \<lparr>isValid = True, errors = []\<rparr> \<and>
   validateSisterData sample_url_parser
     (JObj [(''greeting'', JStr ''G''), (''message'', JStr ''M''),
            (''images'', JArr [JStr ''x'', JNull])]) =
     Inr \<lparr>isValid = False, errors = [''Name is required'', ''Image URL 1 is not valid'']\<rparr> \<and>
   isValid \<lparr>isValid = False,
            errors = [''Name is required'', ''Greeting is required'', ''Message is required'']\<rparr> =
     (errors \<lparr>isValid = False,
              errors = [''Name is required'', ''Greeting is required'',
                        ''Message is required'']\<rparr> = [])"
proof -
  let ?kvs = "[(''name'', JStr ''A''), (''greeting'', JStr ''G''), (''message'', JStr ''M'')]"
  let ?kvs2 = "[(''greeting'', JStr ''G''), (''message'', JStr ''M''),
            (''images'', JArr [JStr ''x'', JNull])]"
  let ?r = "\<lparr>isValid = False,
            errors = [''Name is required'', ''Greeting is required'', ''Message is required'']\<rparr>"
  have f: "field ?kvs ''name'' = JStr ''A''" "field ?kvs ''greeting'' = JStr ''G''"
    "field ?kvs ''message'' = JStr ''M''" "map_of ?kvs ''images'' = None"
    by (simp_all add: field_def)
  have t: "trim ''A'' \<noteq> []" "trim ''G'' \<noteq> []" "trim ''M'' \<noteq> []"
    by code_simp+
  have g: "typed_candidate ?kvs2"
    by (simp add: typed_candidate_def field_def images_checkable_def)
  have x: "expected_errors sample_url_parser ?kvs2 =
      [''Name is required'', ''Image URL 1 is not valid'']"
    by code_simp
  have e: "validateSisterData sample_url_parser (JObj []) = Inr ?r"
    by (simp add: validateSisterData_def require_field_def on_value_def)
  have 1: "validateSisterData sample_url_parser (JObj ?kvs) = Inr \<lparr>isValid = True, errors = []\<rparr>"
    using validate_returns_on_typed[of sample_url_parser ?kvs _ _ "''A''" "''G''" "''M''"] f t
    by blast
  have 2: "validateSisterData sample_url_parser (JObj ?kvs2) =
      Inr \<lparr>isValid = False, errors = [''Name is required'', ''Image URL 1 is not valid'']\<rparr>"
    using validate_returns_on_typed[of sample_url_parser ?kvs2] g x
    by simp
  have 3: "isValid ?r = (errors ?r = [])"
    using validate_returns_on_typed[of sample_url_parser _ "JObj []" ?r] e
    by blast
  show ?thesis
    using 1 2 3 by blast
qed

text \<open>C4, as the claim states it, fails on a text field that is not a string: with
  \<^verbatim>\<open>name: 5\<close> the call \<^verbatim>\<open>sisterData.name.trim()\<close> throws a \<^verbatim>\<open>TypeError\<close>, which
  nothing in the function catches.\<close>

theorem validate_throws_on_number:
  "validateSisterData sample_url_parser mistyped_candidate = Inl TypeError"
  by (simp add: mistyped_candidate_def validateSisterData_def require_field_def on_value_def)

section \<open>The validator leaves the heap it was given\<close>

lemma maintains_bind:
  assumes m: "maintains I m" and f: "\<And>v. maintains I (f v)"
  shows "maintains I (bind_h m f)"
  unfolding maintains_def
proof (intro allI impI)
  fix h assume k: "I h"
  obtain r h' where st: "m h = (r, h')" by (cases "m h")
  have k': "I h'" using m k st by (auto simp: maintains_def)
  show "I (snd (bind_h m f h))"
  proof (cases r)
    case (Inl e)
    then show ?thesis using st k' by (simp add: bind_h_def)
  next
    case (Inr v)
    then show ?thesis using st k' f[of v] by (simp add: bind_h_def maintains_def)
  qed
qed

lemma maintains_lift: "maintains I (lift r)"
  by (simp add: maintains_def lift_def)

lemma maintains_get: "maintains I (get_h v k)"
  by (simp add: maintains_def get_h_def)

lemma maintains_If:
  "maintains I a \<Longrightarrow> maintains I b \<Longrightarrow> maintains I (if c then a else b)"
  by simp

lemma maintains_when:
  "maintains I m \<Longrightarrow> maintains I (\<lambda>h. if c h then m h else (Inr (), h))"
  by (simp add: maintains_def)

lemma maintains_case_sum:
  "(\<And>e. maintains I (f e)) \<Longrightarrow> (\<And>u. maintains I (g u)) \<Longrightarrow>
   maintains I (case r of Inl e \<Rightarrow> f e | Inr u \<Rightarrow> g u)"
  by (cases r) simp_all

lemma maintains_forEach_h:
  assumes f: "\<And>x i. maintains I (f x i)"
  shows "maintains I (forEach_h f arr i len)"
  unfolding maintains_def
proof (intro allI impI)
  fix h assume "I h"
  then show "I (snd (forEach_h f arr i len h))"
  proof (induction "len - i" arbitrary: i h)
    case 0
    then show ?case by (subst forEach_h.simps) simp
  next
    case (Suc n)
    let ?x = "(case elements h arr of
                 Some xs \<Rightarrow> if i < length xs then xs ! i else RUndefined
               | None \<Rightarrow> RUndefined)"
    obtain r h' where st: "f ?x i h = (r, h')"
      by (cases "f ?x i h")
    have k: "I h'" using f[of ?x i] Suc.prems st by (auto simp: maintains_def)
    have n: "n = len - Suc i" and lt: "i < len" using Suc.hyps(2) by simp_all
    show ?case
      using Suc.hyps(1)[OF n k] lt st k
      by (subst forEach_h.simps) (simp split: sum.splits)
  qed
qed

lemma maintains_forEach:
  "(\<And>x i. maintains I (f x i)) \<Longrightarrow> maintains I (h_forEach v f)"
  using maintains_forEach_h[of I f]
  by (cases v) (auto simp: maintains_def split: option.splits)

lemma push_grown:
  "push (length h0) v (h0 @ [HArr xs]) = (Inr (), h0 @ [HArr (xs @ [v])])"
  by (simp add: push_def elements_def)

lemma grown_push: "maintains (grown h0) (push (length h0) (RStr m))"
  unfolding maintains_def grown_def
proof (intro allI impI)
  fix h assume "\<exists>errs. h = h0 @ [HArr (map RStr errs)]"
  then obtain errs where h: "h = h0 @ [HArr (map RStr errs)]" by blast
  have "snd (push (length h0) (RStr m) h) = h0 @ [HArr (map RStr (errs @ [m]))]"
    unfolding h push_grown by simp
  then show "\<exists>errs. snd (push (length h0) (RStr m) h) = h0 @ [HArr (map RStr errs)]"
    by blast
qed

lemma grown_require: "maintains (grown h0) (require_field_h (length h0) c k m)"
  unfolding require_field_h_def
  by (intro maintains_bind maintains_get maintains_If grown_push maintains_lift)

lemma grown_check_image: "maintains (grown h0) (check_image_h p (length h0) url i)"
  unfolding check_image_h_def
  by (intro maintains_bind maintains_If maintains_case_sum grown_push maintains_lift)

lemma grown_checks:
  "maintains (grown h)
     (bind_h (require_field_h (length h) c ''name'' ''Name is required'') (\<lambda>u.
      bind_h (require_field_h (length h) c ''greeting'' ''Greeting is required'') (\<lambda>u.
      bind_h (require_field_h (length h) c ''message'' ''Message is required'') (\<lambda>u.
      bind_h (get_h c ''images'') (\<lambda>images.
        (\<lambda>h'. if r_truthy images \<and> h_isArray h' images
              then h_forEach images (check_image_h p (length h)) h'
              else (Inr (), h')))))))"
  by (intro maintains_bind grown_require maintains_get maintains_when maintains_forEach
        grown_check_image)

lemma bind_h_assoc: "bind_h (bind_h m f) g = bind_h m (\<lambda>v. bind_h (f v) g)"
proof (rule ext)
  fix h
  show "bind_h (bind_h m f) g h = bind_h m (\<lambda>v. bind_h (f v) g) h"
    by (cases "m h") (simp add: bind_h_def split: sum.splits)
qed

lemma bind_h_eval:
  "m h = (r, h') \<Longrightarrow> bind_h m f h = (case r of Inl e \<Rightarrow> (Inl e, h') | Inr v \<Rightarrow> f v h')"
  by (simp add: bind_h_def)

text \<open>
  C10. \<^verbatim>\<open>validateSisterData\<close> does not change its argument, and what it returns is
  new. For every heap and every candidate (a reference into the heap or any other
  value): the heap after the call is the heap before the call, every object of it as it
  was, followed by one new array of strings, the \<^verbatim>\<open>errors\<close>, and, when the function
  returns rather than throws, by one new object, the result, whose \<^verbatim>\<open>errors\<close> refers
  to the new array and whose \<^verbatim>\<open>isValid\<close> says whether that array is empty.
\<close>

theorem validate_argument_untouched:
  "case validateSisterData_h url_parses sisterData h of
     (Inl e, h') \<Rightarrow> (\<exists>errs. h' = h @ [HArr (map RStr errs)])
   | (Inr result, h') \<Rightarrow>
       (\<exists>errs. h' = h @ [HArr (map RStr errs),
                         HObj [(''isValid'', RBool (errs = [])),
                               (''errors'', RRef (length h))]] \<and>
               result = RRef (Suc (length h)))"
proof -
  let ?checks =
    "bind_h (require_field_h (length h) sisterData ''name'' ''Name is required'') (\<lambda>u.
     bind_h (require_field_h (length h) sisterData ''greeting'' ''Greeting is required'') (\<lambda>u.
     bind_h (require_field_h (length h) sisterData ''message'' ''Message is required'') (\<lambda>u.
     bind_h (get_h sisterData ''images'') (\<lambda>images.
       (\<lambda>h'. if r_truthy images \<and> h_isArray h' images
             then h_forEach images (check_image_h url_parses (length h)) h'
             else (Inr (), h'))))))"
  let ?finish = "(\<lambda>u::unit. bind_h (get_h (RRef (length h)) ''length'') (\<lambda>len.
     bind_h (alloc (HObj [(''isValid'', RBool (len = RNum 0)),
                          (''errors'', RRef (length h))])) (\<lambda>result.
     lift (Inr (RRef result)))))"
  have a: "alloc (HArr []) h = (Inr (length h), h @ [HArr []])"
    by (simp add: alloc_def)
  have split: "validateSisterData_h url_parses sisterData h =
      bind_h ?checks ?finish (h @ [HArr []])"
    unfolding validateSisterData_h_def bind_h_eval[where m="alloc (HArr [])" and h=h, OF a]
      bind_h_assoc
    by simp
  obtain r h1 where st: "?checks (h @ [HArr []]) = (r, h1)"
    by (cases "?checks (h @ [HArr []])")
  have "grown h (h @ [HArr []])"
    by (simp add: grown_def)
  from grown_checks[of h sisterData url_parses, unfolded maintains_def, rule_format, OF this]
  have "grown h h1"
    unfolding st by simp
  then obtain errs where h1: "h1 = h @ [HArr (map RStr errs)]"
    by (auto simp: grown_def)
  show ?thesis
  proof (cases r)
    case (Inl e)
    then show ?thesis
      unfolding split bind_h_eval[where m="?checks" and h="h @ [HArr []]", OF st]
      using h1 by auto
  next
    case (Inr u)
    have "?finish u h1 = (Inr (RRef (Suc (length h))),
        h @ [HArr (map RStr errs),
             HObj [(''isValid'', RBool (errs = [])), (''errors'', RRef (length h))]])"
      unfolding h1 by (simp add: bind_h_def get_h_def alloc_def lift_def)
    then show ?thesis
      unfolding split bind_h_eval[where m="?checks" and h="h @ [HArr []]", OF st]
      using Inr by auto
  qed
qed

text \<open>On the sample heap: the candidate at address 0 and its \<^verbatim>\<open>images\<close> at address
  1 are as they were, the errors are at address 2 and the result at address 3.\<close>

lemma validate_sample_heap:
  "validateSisterData_h sample_url_parser (RRef 0) sample_heap =
     (Inr (RRef 3),
      sample_heap @
      [HArr [RStr ''Message is required'', RStr ''Image URL 1 is not valid''],
       HObj [(''isValid'', RBool False), (''errors'', RRef 2)]])"
  by code_simp

section \<open>The two models of the validator agree\<close>

text \<open>On a candidate that is well placed in the heap, the validator on the heap throws
  what the validator on values throws on the value the candidate stands for, and
  returns the same errors and the same verdict.\<close>

lemma truthy_denote: "truthy (denote d h v) = r_truthy v"
  by (cases v; cases d) (auto split: heap_object.splits)

lemma trim_denote:
  "js_trim (denote d h v) = (case r_trim v of Inl e \<Rightarrow> Inl e | Inr t \<Rightarrow> Inr (denote d h t))"
  by (cases v; cases d) (auto split: heap_object.splits)

lemma trim_blank: "r_trim v = Inr t \<Longrightarrow> (denote d h t = JStr []) = (t = RStr [])"
  by (cases v) auto

lemma map_of_denote:
  "map_of (map (\<lambda>(k, v). (k, f v)) kvs) k = map_option f (map_of kvs k)"
  by (induction kvs) auto

lemma map_of_in_heap:
  "list_all (\<lambda>(k, v). in_heap h v) kvs \<Longrightarrow> map_of kvs k = Some v \<Longrightarrow> in_heap h v"
  by (induction kvs) (auto split: if_splits)

lemma getProp_denote:
  assumes "candidate_ok h c"
  shows "getProp (denote 2 h c) k =
           (case h_getProp (with_errors h errs) c k of
              Inl e \<Rightarrow> Inl e
            | Inr v \<Rightarrow> Inr (denote 1 h v))"
    and "h_getProp (with_errors h errs) c k = Inr v \<Longrightarrow> in_heap h v"
  using assms
  by (cases c; auto simp: with_errors_def nth_append map_of_denote map_of_in_heap numeral_2_eq_2
       split: heap_object.splits option.splits)+

lemma push_with_errors:
  "push (length h) (RStr m) (with_errors h errs) = (Inr (), with_errors h (errs @ [m]))"
  by (simp add: with_errors_def push_grown)

lemma require_field_refines:
  assumes "candidate_ok h c"
  shows "require_field_h (length h) c k m (with_errors h errs) =
     (case require_field (denote 2 h c) k m errs of
        Inl e \<Rightarrow> (Inl e, with_errors h errs)
      | Inr errs' \<Rightarrow> (Inr (), with_errors h errs'))"
proof (cases "h_getProp (with_errors h errs) c k")
  case (Inl e)
  then show ?thesis
    using getProp_denote(1)[OF assms, of k errs]
    by (simp add: require_field_h_def require_field_def bind_h_def get_h_def on_value_def)
next
  case (Inr v)
  then have g: "getProp (denote 2 h c) k = Inr (denote 1 h v)"
    using getProp_denote(1)[OF assms, of k errs] by simp
  show ?thesis
  proof (cases "r_trim v")
    case (Inl e)
    then show ?thesis
      using Inr g
      by (simp add: require_field_h_def require_field_def bind_h_def get_h_def on_value_def
          lift_def truthy_denote trim_denote push_with_errors)
  next
    case (Inr t)
    then show ?thesis
      using \<open>h_getProp (with_errors h errs) c k = Inr v\<close> g trim_blank[OF Inr, of 1 h]
      by (simp add: require_field_h_def require_field_def bind_h_def get_h_def on_value_def
          lift_def truthy_denote trim_denote push_with_errors)
  qed
qed

lemma new_URL_denote: "r_trim v = Inr t \<Longrightarrow> new_URL p (denote d h v) = r_new_URL p v"
  by (cases v) auto

lemma check_image_refines:
  "check_image_h p (length h) x i (with_errors h errs) =
     (case check_image p (denote 0 h x) i errs of
        Inl e \<Rightarrow> (Inl e, with_errors h errs)
      | Inr errs' \<Rightarrow> (Inr (), with_errors h errs'))"
proof (cases "r_trim x")
  case (Inl e)
  then show ?thesis
    by (simp add: check_image_h_def check_image_def bind_h_def on_value_def lift_def
        truthy_denote trim_denote)
next
  case (Inr t)
  then show ?thesis
    using trim_blank[OF Inr, of 0 h] new_URL_denote[OF Inr, of p 0 h]
    by (simp add: check_image_h_def check_image_def bind_h_def on_value_def lift_def
        truthy_denote trim_denote push_with_errors split: sum.splits)
qed

lemma elements_with_errors:
  "b < length h \<Longrightarrow> elements (with_errors h errs) b = elements h b"
  by (simp add: elements_def with_errors_def nth_append)

lemma forEach_refines:
  assumes b: "b < length h" and xs: "elements h b = Some xs"
  shows "i \<le> length xs \<Longrightarrow>
     (case forEach_h (check_image_h p (length h)) b i (length xs) (with_errors h errs) of
        (Inl e, h') \<Rightarrow>
          forEach_from (check_image p) (drop i (map (denote 0 h) xs)) i errs = Inl e \<and>
          (\<exists>errs'. h' = with_errors h errs')
      | (Inr u, h') \<Rightarrow>
          (\<exists>errs'. forEach_from (check_image p) (drop i (map (denote 0 h) xs)) i errs = Inr errs' \<and>
                   h' = with_errors h errs'))"
proof (induction "length xs - i" arbitrary: i errs)
  case 0
  then show ?case by (subst forEach_h.simps) simp
next
  case (Suc n)
  then have lt: "i < length xs" and n: "n = length xs - Suc i" and le: "Suc i \<le> length xs"
    by simp_all
  have d: "drop i (map (denote 0 h) xs) = denote 0 h (xs ! i) # drop (Suc i) (map (denote 0 h) xs)"
    using lt by (simp add: Cons_nth_drop_Suc[symmetric])
  have x: "(case elements (with_errors h errs) b of
              Some ys \<Rightarrow> if i < length ys then ys ! i else RUndefined
            | None \<Rightarrow> RUndefined) = xs ! i"
    using lt by (simp add: elements_with_errors[OF b] xs)
  show ?case
  proof (cases "check_image p (denote 0 h (xs ! i)) i errs")
    case (Inl e)
    then show ?thesis
      using lt
      by (subst forEach_h.simps) (auto simp: x d check_image_refines)
  next
    case (Inr errs1)
    have fe: "forEach_from (check_image p) (drop i (map (denote 0 h) xs)) i errs =
        forEach_from (check_image p) (drop (Suc i) (map (denote 0 h) xs)) (Suc i) errs1"
      by (subst d) (simp add: Inr)
    have st: "forEach_h (check_image_h p (length h)) b i (length xs) (with_errors h errs) =
        forEach_h (check_image_h p (length h)) b (Suc i) (length xs) (with_errors h errs1)"
      using lt by (subst forEach_h.simps) (simp add: x check_image_refines Inr)
    show ?thesis
      unfolding fe st by (rule Suc.hyps(1)[OF n le])
  qed
qed


lemma isArray_denote:
  "in_heap h v \<Longrightarrow>
   (truthy (denote 1 h v) \<and> isArray (denote 1 h v)) =
   (r_truthy v \<and> h_isArray (with_errors h errs) v)"
  by (cases v) (auto simp: elements_def with_errors_def nth_append split: heap_object.splits)

lemma images_refine:
  assumes "in_heap h v"
  shows "case (if r_truthy v \<and> h_isArray (with_errors h errs) v
               then h_forEach v (check_image_h p (length h)) (with_errors h errs)
               else (Inr (), with_errors h errs)) of
        (Inl e, h') \<Rightarrow>
          (if truthy (denote 1 h v) \<and> isArray (denote 1 h v)
           then js_forEach (denote 1 h v) (check_image p) errs else Inr errs) = Inl e \<and>
          (\<exists>errs'. h' = with_errors h errs')
      | (Inr u, h') \<Rightarrow>
          (\<exists>errs'. (if truthy (denote 1 h v) \<and> isArray (denote 1 h v)
                    then js_forEach (denote 1 h v) (check_image p) errs else Inr errs) = Inr errs' \<and>
                   h' = with_errors h errs')"
proof (cases "r_truthy v \<and> h_isArray (with_errors h errs) v")
  case False
  then show ?thesis
    using isArray_denote[OF assms, of errs] by auto
next
  case True
  then obtain b xs where v: "v = RRef b" and b: "b < length h" and xs: "elements h b = Some xs"
    using assms by (cases v) (auto simp: elements_with_errors)
  have d: "denote 1 h (RRef b) = JArr (map (denote 0 h) xs)"
    using b xs by (auto simp: elements_def split: heap_object.splits if_splits)
  show ?thesis
    unfolding v d
    using forEach_refines[OF b xs, of 0 p errs]
    by (simp add: elements_with_errors[OF b] xs split: prod.splits sum.splits)
qed


lemma bind_h_value:
  "m h = (Inr v, h') \<Longrightarrow> bind_h m f h = f v h'"
  by (simp add: bind_h_def)

lemma bind_h_error:
  "m h = (Inl e, h') \<Longrightarrow> bind_h m f h = (Inl e, h')"
  by (simp add: bind_h_def)

lemma validate_h_refines:
  assumes ok: "candidate_ok h c"
  shows "case validateSisterData_h p c h of
     (Inl e, h') \<Rightarrow> validateSisterData p (denote 2 h c) = Inl e
   | (Inr result, h') \<Rightarrow>
       (\<exists>errs. validateSisterData p (denote 2 h c) =
                 Inr \<lparr>isValid = (errs = []), errors = errs\<rparr> \<and>
               h' = h @ [HArr (map RStr errs),
                         HObj [(''isValid'', RBool (errs = [])), (''errors'', RRef (length h))]] \<and>
               result = RRef (Suc (length h)))"
proof -
  note rf = require_field_refines[OF ok]
  have a: "alloc (HArr []) h = (Inr (length h), with_errors h [])"
    by (simp add: alloc_def with_errors_def)
  note start = bind_h_value[where m="alloc (HArr [])" and h=h, OF a]
  show ?thesis
  proof (cases "require_field (denote 2 h c) ''name'' ''Name is required'' []")
    case (Inl e)
    then show ?thesis
      unfolding validateSisterData_h_def validateSisterData_def start
      by (simp add: bind_h_def rf on_value_def)
  next
    case e1: (Inr errs1)
    show ?thesis
    proof (cases "require_field (denote 2 h c) ''greeting'' ''Greeting is required'' errs1")
      case (Inl e)
      then show ?thesis
        unfolding validateSisterData_h_def validateSisterData_def start
        by (simp add: bind_h_def rf on_value_def e1)
    next
      case e2: (Inr errs2)
      show ?thesis
      proof (cases "require_field (denote 2 h c) ''message'' ''Message is required'' errs2")
        case (Inl e)
        then show ?thesis
          unfolding validateSisterData_h_def validateSisterData_def start
          by (simp add: bind_h_def rf on_value_def e1 e2)
      next
        case e3: (Inr errs3)
        show ?thesis
        proof (cases "h_getProp (with_errors h errs3) c ''images''")
          case (Inl e)
          then show ?thesis
            using getProp_denote(1)[OF ok, of "''images''" errs3]
            unfolding validateSisterData_h_def validateSisterData_def start
            by (simp add: bind_h_def rf on_value_def e1 e2 e3 get_h_def)
        next
          case (Inr v)
          have g: "getProp (denote 2 h c) ''images'' = Inr (denote 1 h v)"
            using getProp_denote(1)[OF ok, of "''images''" errs3] Inr
            by simp
          have iv: "in_heap h v"
            using getProp_denote(2)[OF ok Inr] .
          let ?images = "\<lambda>ha. if r_truthy v \<and> h_isArray ha v
                  then h_forEach v (check_image_h p (length h)) ha
                  else (Inr (), ha)"
          let ?finish = "(\<lambda>u::unit. bind_h (get_h (RRef (length h)) ''length'') (\<lambda>len.
             bind_h (alloc (HObj [(''isValid'', RBool (len = RNum 0)),
                                  (''errors'', RRef (length h))])) (\<lambda>result.
             lift (Inr (RRef result)))))"
          let ?pure = "if truthy (denote 1 h v) \<and> isArray (denote 1 h v)
             then js_forEach (denote 1 h v) (check_image p) errs3 else Inr errs3"
          have step: "validateSisterData_h p c h = bind_h ?images ?finish (with_errors h errs3)"
            unfolding validateSisterData_h_def start
            by (simp add: bind_h_def rf e1 e2 e3 get_h_def Inr)
          have pure: "validateSisterData p (denote 2 h c) =
              on_value ?pure (\<lambda>errors4. Inr \<lparr>isValid = (length errors4 = 0), errors = errors4\<rparr>)"
            by (simp add: validateSisterData_def on_value_def e1 e2 e3 g)
          obtain r5 h5 where st: "?images (with_errors h errs3) = (r5, h5)"
            by (cases "?images (with_errors h errs3)")
          show ?thesis
          proof (cases r5)
            case (Inl e)
            then have "?pure = Inl e"
              using images_refine[OF iv, where errs=errs3 and p=p] st by simp
            then show ?thesis
              unfolding step pure bind_h_error[where m="?images", OF st[unfolded Inl]]
              by (simp add: on_value_def)
          next
            case r: (Inr u)
            then obtain errs4 where p4: "?pure = Inr errs4" and h5: "h5 = with_errors h errs4"
              using images_refine[OF iv, where errs=errs3 and p=p] st by auto
            have "?finish u h5 = (Inr (RRef (Suc (length h))),
                h @ [HArr (map RStr errs4),
                     HObj [(''isValid'', RBool (errs4 = [])), (''errors'', RRef (length h))]])"
              unfolding h5 with_errors_def
              by (simp add: bind_h_def get_h_def alloc_def lift_def)
            then show ?thesis
              unfolding step pure bind_h_value[where m="?images", OF st[unfolded r]] p4
              by (simp add: on_value_def)
          qed
        qed
      qed
    qed
  qed
qed

end
